theory Spec2Isabelle
  imports Main
begin


section \<open>C library helpers\<close>

text \<open>
  C strings are modelled as \<^typ>\<open>string\<close>: the characters before the terminating NUL.
  A \<open>char *\<close> that may be \<open>NULL\<close> is a \<^typ>\<open>string option\<close>.
\<close>

definition newline :: char where
  "newline = CHR 0x0A"

text \<open>
  The NUL byte. It ends a C string, so it never occurs in a \<^typ>\<open>string\<close> that stands
  for one; it can occur in the content of a file.
\<close>

definition NUL :: char where
  "NUL = CHR 0x00"

text \<open>\<open>isspace(3)\<close> in the C locale: space, \<open>\t\<close>, \<open>\n\<close>, \<open>\v\<close>, \<open>\f\<close>, \<open>\r\<close>.\<close>

definition isspace :: "char \<Rightarrow> bool" where
  "isspace c = (c \<in> set [CHR '' '', CHR 0x09, CHR 0x0A, CHR 0x0B, CHR 0x0C, CHR 0x0D])"

definition isdigit :: "char \<Rightarrow> bool" where
  "isdigit c = (c \<in> set ''0123456789'')"

definition digit_char :: "nat \<Rightarrow> char" where
  "digit_char d = ''0123456789'' ! d"

definition digit_val :: "char \<Rightarrow> int" where
  "digit_val c = int (length (takeWhile (\<lambda>d. d \<noteq> c) ''0123456789''))"

text \<open>Decimal digits of a natural number, most significant first, as \<open>printf\<close> writes them.\<close>

fun dec :: "nat \<Rightarrow> string" where
  "dec n = (if n < 10 then [digit_char n] else dec (n div 10) @ [digit_char (n mod 10)])"

declare dec.simps [simp del]

text \<open>
  \<open>snprintf(s, n, "%u", val)\<close> with an \<open>int\<close> argument: the 32-bit pattern of \<open>val\<close> is
  read as \<open>unsigned int\<close>, that is \<open>val mod 2^32\<close>, and printed in decimal. At most ten
  digits are written, so the 63-byte bound of the caller never truncates.
\<close>

definition sprintf_u :: "int \<Rightarrow> string" where
  "sprintf_u val = dec (nat (val mod 2 ^ 32))"

text \<open>
  \<open>atoi(3)\<close> belongs to the C library, not to the repository. It is modelled as the C
  library defines it, \<open>(int) strtol(nptr, NULL, 10)\<close>: \<open>strtol\<close> skips white space, reads
  an optional sign and the longest run of decimal digits, and saturates at the bounds of
  \<open>long\<close>; the conversion to \<open>int\<close> keeps the low 32 bits. The width of \<open>long\<close>
  (\<open>long_bit\<close>: 64 on LP64 platforms, 32 on ILP32 ones) is a parameter.
\<close>

fun strtol_digits :: "int \<Rightarrow> string \<Rightarrow> int" where
  "strtol_digits acc [] = acc"
| "strtol_digits acc (c # s) =
     (if isdigit c then strtol_digits (acc * 10 + digit_val c) s else acc)"

definition strtol :: "nat \<Rightarrow> string \<Rightarrow> int" where
  "strtol long_bit nptr =
     (let s = dropWhile isspace nptr;
          neg = (s \<noteq> [] \<and> hd s = CHR ''-'');
          s' = (if s \<noteq> [] \<and> (hd s = CHR ''-'' \<or> hd s = CHR ''+'') then tl s else s);
          n = strtol_digits 0 s';
          v = (if neg then - n else n)
      in max (- (2 ^ (long_bit - 1))) (min (2 ^ (long_bit - 1) - 1) v))"

definition int_cast :: "int \<Rightarrow> int" where
  "int_cast x = (x + 2 ^ 31) mod 2 ^ 32 - 2 ^ 31"

definition atoi :: "nat \<Rightarrow> string \<Rightarrow> int" where
  "atoi long_bit nptr = int_cast (strtol long_bit nptr)"

definition INT_MIN :: int where
  "INT_MIN = - (2 ^ 31)"

definition INT_MAX :: int where
  "INT_MAX = 2 ^ 31 - 1"

text \<open>
  \<open>fgets(line, n, f)\<close>: at most \<open>n - 1\<close> characters of the stream, up to and
  including the first newline. The stream is the list of characters not yet read; the
  caller drops what \<open>fgets\<close> returned. On an empty stream \<open>fgets\<close> returns \<open>NULL\<close>, which
  the caller tests before calling.
\<close>

definition fgets :: "nat \<Rightarrow> string \<Rightarrow> string" where
  "fgets n stream =
     (let buf = take (n - 1) stream;
          l = takeWhile (\<lambda>c. c \<noteq> newline) buf
      in if length l < length buf then l @ [newline] else l)"

text \<open>
  One \<open>%s\<close> conversion of \<open>sscanf\<close>: skip white space, then take the longest run of
  characters that are not white space. \<open>None\<close> when the input ends before a character
  of the run is found; otherwise the run and the rest of the input.
\<close>

definition scan_s :: "string \<Rightarrow> (string \<times> string) option" where
  "scan_s inp =
     (let s = dropWhile isspace inp
      in if s = [] then None
         else Some (takeWhile (\<lambda>c. \<not> isspace c) s, dropWhile (\<lambda>c. \<not> isspace c) s))"

text \<open>
  \<open>sscanf(line, "%s %s", opt, val)\<close>: the list of strings assigned, in order. Its length
  is what the caller compares with 2 (\<open>sscanf\<close> returns the number of assignments, or
  \<open>EOF\<close> when there is none: less than 2 in both cases).
\<close>

definition sscanf_s_s :: "string \<Rightarrow> string list" where
  "sscanf_s_s line =
     (case scan_s line of
        None \<Rightarrow> []
      | Some (opt, rest) \<Rightarrow>
          (case scan_s rest of
             None \<Rightarrow> [opt]
           | Some (val, _) \<Rightarrow> [opt, val]))"

section \<open>CLIgen parse trees and parse-tree heads\<close>

text \<open>
  CLIgen is an external library; the repository only calls it. Its parse tree is
  modelled from the specification's data model: an ordered tree of command-token nodes.
  A node carries its token, whether a command may end at it, the symbolic names of
  its callbacks, of its variable-expansion function and of its variable-translation
  function, and its children.
\<close>

datatype cg_obj =
  CgObj (co_command: string) (co_terminal: bool) (co_callbacks: "string list")
    (co_expandv: "string option") (co_translate: "string option") (co_pt: "cg_obj list")

type_synonym parse_tree = "cg_obj list"



text \<open>
  A parse-tree head (\<open>pt_head\<close>) is a syntax mode: a name, a parse tree and a prompt
  format. The CLIgen handle keeps the heads in the order they were added and a pointer
  to the active one, modelled as its name.
\<close>

record pt_head =
  ph_name :: string
  ph_parsetree :: parse_tree
  ph_prompt :: string

type_synonym fnptr = nat

record cligen_handle =
  ch_pt_head :: "pt_head list"
  ch_pt_head_active :: "string option"
  ch_exiting :: bool
  ch_susp_hook :: "fnptr option"
  ch_interrupt_hook :: "fnptr option"

definition CLI_DEFAULT_PROMPT :: string where
  "CLI_DEFAULT_PROMPT = ''cli> ''"

text \<open>\<open>cligen_ph_find\<close>: the first head with the given name, or \<open>NULL\<close>.\<close>

fun cligen_ph_find :: "pt_head list \<Rightarrow> string \<Rightarrow> pt_head option" where
  "cligen_ph_find [] name = None"
| "cligen_ph_find (ph # phs) name =
     (if ph_name ph = name then Some ph else cligen_ph_find phs name)"


section \<open>The clicon handle\<close>

text \<open>
  A plugin: its name, the \<open>dlopen\<close> handle of its module (\<open>None\<close> is \<open>NULL\<close>) and the
  suspend and interrupt entries of its API struct (\<open>None\<close> is \<open>NULL\<close>).
\<close>

type_synonym dl_handle = nat

record clixon_plugin =
  cp_name :: string
  cp_handle :: "dl_handle option"
  ca_suspend :: "fnptr option"
  ca_interrupt :: "fnptr option"

text \<open>
  Modelled from the spec: the hash table of \<open>clixon_hash.c\<close>, which is not among the
  source files. The registry is a mapping from option name to value; inserting a key
  again overwrites its value. \<open>hash_lookup\<close> returns a non-\<open>NULL\<close> entry exactly when the
  key is present, \<open>hash_add\<close> returns \<open>NULL\<close> only when memory is exhausted (which is not
  modelled), \<open>hash_del\<close> returns 0 when it removed the key and -1 when the key was absent.
\<close>

type_synonym clicon_hash_t = "string \<rightharpoonup> string"

definition hash_lookup :: "clicon_hash_t \<Rightarrow> string \<Rightarrow> bool" where
  "hash_lookup hash key = (hash key \<noteq> None)"

definition hash_value :: "clicon_hash_t \<Rightarrow> string \<Rightarrow> string option" where
  "hash_value hash key = hash key"

definition hash_add :: "clicon_hash_t \<Rightarrow> string \<Rightarrow> string \<Rightarrow> clicon_hash_t option" where
  "hash_add hash key val = Some (hash(key \<mapsto> val))"

definition hash_del :: "clicon_hash_t \<Rightarrow> string \<Rightarrow> int \<times> clicon_hash_t" where
  "hash_del hash key = (if hash key = None then (- 1, hash) else (0, hash(key := None)))"

datatype log_flag = CLICON_LOG_SYSLOG | CLICON_LOG_STDERR | CLICON_LOG_STDOUT | CLICON_LOG_FILE

text \<open>
  The handle, with the process-wide state the modelled functions read and write: the
  option and data hashes, the CLIgen handle, the plugin list, the error variables
  \<open>clicon_errno\<close>, \<open>clicon_suberrno\<close> and \<open>clicon_err_reason\<close>, the log flags, and what
  has been written to \<open>stdout\<close> and \<open>stderr\<close>.
\<close>

record clicon_handle =
  clicon_options :: clicon_hash_t
  clicon_data :: clicon_hash_t
  cli_cligen :: cligen_handle
  clixon_plugins :: "clixon_plugin list"
  clicon_errno :: int
  clicon_suberrno :: int
  clicon_err_reason :: string
  clicon_logflags :: "log_flag set"
  h_stdout :: string
  h_stderr :: string

datatype clicon_category = OE_UNIX | OE_CFG | OE_PLUGIN | OE_FATAL

text \<open>
  A failing function returns \<open>Inl\<close> of the category and the message it passed to
  \<open>clicon_err\<close>; a succeeding one returns \<open>Inr\<close> of its result. Where the source
  fails on the negative return of a function it called, without a \<open>clicon_err\<close> of its
  own, the message is the name of that function.
\<close>

type_synonym clicon_error = "clicon_category \<times> string"

section \<open>Option registry (\<open>lib/src/clixon_options.c\<close>)\<close>

text \<open>
  What \<open>stat\<close> and \<open>fopen\<close> find at a path: nothing (\<open>stat\<close> fails), or a node that is a
  regular file or not, and whose content can be read or not (\<open>fopen\<close> fails).
\<close>

record file_node =
  st_isreg :: bool
  f_content :: "string option"

type_synonym file_system = "string \<Rightarrow> file_node option"

text \<open>
  The body of the \<open>while (fgets(line, sizeof(line), f))\<close> loop, for the characters
  \<open>buf\<close> that \<open>fgets\<close> stored. \<open>fgets\<close> stores NUL bytes of the file like any other
  character, but \<open>strchr\<close> and \<open>sscanf\<close> read the buffer as a C string: \<open>line\<close> is what
  comes before the first NUL.
\<close>

definition readfile_line :: "string \<Rightarrow> string list" where
  "readfile_line buf =
     (let line = takeWhile (\<lambda>c. c \<noteq> NUL) buf;
          line1 = takeWhile (\<lambda>c. c \<noteq> newline) line;
          line2 = (if CHR ''#'' \<in> set line1
                   then takeWhile (\<lambda>c. c \<noteq> CHR ''#'') line1 @ [newline] else line1)
      in sscanf_s_s line2)"

function readfile_loop :: "clicon_hash_t \<Rightarrow> string \<Rightarrow> clicon_error + clicon_hash_t" where
  "readfile_loop copt stream =
     (if stream = [] then Inr copt
      else let line = fgets 1024 stream;
               rest = drop (length line) stream;
               toks = readfile_line line
           in if length toks < 2 then readfile_loop copt rest
              else (case hash_add copt (toks ! 0) (toks ! 1) of
                      None \<Rightarrow> Inl (OE_UNIX, ''hash_add'')
                    | Some copt' \<Rightarrow> readfile_loop copt' rest))"
  by pat_completeness auto

termination
proof (relation "measure (\<lambda>(copt, stream). length stream)")
  show "wf (measure (\<lambda>(copt, stream). length stream))"
    by simp
next
  fix copt :: clicon_hash_t and stream line rest :: string
  assume "stream \<noteq> []" and line: "line = fgets 1024 stream"
    and rest: "rest = drop (length line) stream"
  then have "line \<noteq> []"
    by (cases stream) (auto simp: fgets_def Let_def)
  with \<open>stream \<noteq> []\<close> rest have "length rest < length stream"
    by simp
  then show "((copt, rest), (copt, stream)) \<in> measure (\<lambda>(copt, stream). length stream)"
    by simp
  fix toks :: "string list" and copt' :: clicon_hash_t
  from \<open>length rest < length stream\<close>
  show "((copt', rest), (copt, stream)) \<in> measure (\<lambda>(copt, stream). length stream)"
    by simp
qed

declare readfile_loop.simps [simp del]

text \<open>
  \<open>clicon_option_readfile\<close>. \<open>filename\<close> is \<open>None\<close> for a \<open>NULL\<close> pointer. The messages
  are those passed to \<open>clicon_err\<close>.
\<close>

definition clicon_option_readfile ::
  "file_system \<Rightarrow> clicon_hash_t \<Rightarrow> string option \<Rightarrow> clicon_error + clicon_hash_t" where
  "clicon_option_readfile fs copt filename =
     (case filename of
        None \<Rightarrow> Inl (OE_UNIX, ''Not specified'')
      | Some fname \<Rightarrow>
          if length fname = 0 then Inl (OE_UNIX, ''Not specified'')
          else (case fs fname of
                  None \<Rightarrow> Inl (OE_UNIX, fname)
                | Some node \<Rightarrow>
                    if \<not> st_isreg node then Inl (OE_UNIX, fname @ '' is not a regular file'')
                    else (case f_content node of
                            None \<Rightarrow> Inl (OE_UNIX, ''configure file: '' @ fname)
                          | Some stream \<Rightarrow> readfile_loop copt stream)))"

text \<open>
  \<open>clicon_option_default\<close>. \<open>CLICON_SOCK_GROUP\<close> and \<open>CLICON_MASTER_PLUGIN\<close> are macros
  of the generated configuration header; their values are parameters. Each \<open>hash_add\<close>
  result is compared with \<open>< 0\<close>, which no pointer satisfies, and \<open>retval\<close> is 0 on every
  path: the function cannot fail.
\<close>

definition default_add :: "string \<Rightarrow> string \<Rightarrow> clicon_hash_t \<Rightarrow> clicon_hash_t" where
  "default_add key val copt =
     (if \<not> hash_lookup copt key
      then (case hash_add copt key val of None \<Rightarrow> copt | Some copt' \<Rightarrow> copt')
      else copt)"

definition clicon_option_default :: "string \<Rightarrow> string \<Rightarrow> clicon_hash_t \<Rightarrow> clicon_hash_t" where
  "clicon_option_default sock_group master_plugin copt =
     (default_add ''CLICON_CLI_GENMODEL_COMPLETION'' ''0''
     (default_add ''CLICON_CLI_VARONLY'' ''1''
     (default_add ''CLICON_AUTOCOMMIT'' ''0''
     (default_add ''CLICON_CLI_GENMODEL_TYPE'' ''VARS''
     (default_add ''CLICON_CLI_GENMODEL'' ''1''
     (default_add ''CLICON_MASTER_PLUGIN'' master_plugin
     (default_add ''CLICON_CLI_MODE'' ''base''
     (default_add ''CLICON_SOCK_GROUP'' sock_group
     (default_add ''CLICON_YANG_MODULE_MAIN'' ''clicon'' copt)))))))))"

text \<open>\<open>clicon_option_sanity\<close>: the nine checks in the order of the source, each with its message.\<close>

definition clicon_option_sanity :: "clicon_hash_t \<Rightarrow> clicon_error + unit" where
  "clicon_option_sanity copt =
     (if \<not> hash_lookup copt ''CLICON_CLI_DIR''
      then Inl (OE_UNIX, ''CLICON_CLI_DIR not defined in config file'')
      else if \<not> hash_lookup copt ''CLICON_CLISPEC_DIR''
      then Inl (OE_UNIX, ''CLICON_CLISPEC_DIR not defined in config file'')
      else if \<not> hash_lookup copt ''CLICON_BACKEND_DIR''
      then Inl (OE_UNIX, ''CLICON_BACKEND_PIDFILE not defined in config file'')
      else if \<not> hash_lookup copt ''CLICON_NETCONF_DIR''
      then Inl (OE_UNIX, ''CLICON_NETCONF_DIR not defined in config file'')
      else if \<not> hash_lookup copt ''CLICON_RESTCONF_DIR''
      then Inl (OE_UNIX, ''CLICON_RESTCONF_DIR not defined in config file'')
      else if \<not> hash_lookup copt ''CLICON_YANG_DIR''
      then Inl (OE_UNIX, ''CLICON_YANG_DIR not defined in config file'')
      else if \<not> hash_lookup copt ''CLICON_ARCHIVE_DIR''
      then Inl (OE_UNIX, ''CLICON_ARCHIVE_DIR not defined in config file'')
      else if \<not> hash_lookup copt ''CLICON_SOCK''
      then Inl (OE_UNIX, ''CLICON_SOCK not defined in config file'')
      else if \<not> hash_lookup copt ''CLICON_BACKEND_PIDFILE''
      then Inl (OE_UNIX, ''CLICON_BACKEND_PIDFILE not defined in config file'')
      else Inr ())"

text \<open>The options \<open>clicon_option_sanity\<close> looks up.\<close>

definition sanity_required :: "string list" where
  "sanity_required =
     [''CLICON_CLI_DIR'', ''CLICON_CLISPEC_DIR'', ''CLICON_BACKEND_DIR'', ''CLICON_NETCONF_DIR'',
      ''CLICON_RESTCONF_DIR'', ''CLICON_YANG_DIR'', ''CLICON_ARCHIVE_DIR'', ''CLICON_SOCK'',
      ''CLICON_BACKEND_PIDFILE'']"

text \<open>\<open>clicon_options_main\<close>: defaults, then the configuration file, then the sanity check.\<close>

definition clicon_options_main ::
  "file_system \<Rightarrow> string \<Rightarrow> string \<Rightarrow> clicon_handle \<Rightarrow> clicon_error + clicon_handle" where
  "clicon_options_main fs sock_group master_plugin h =
     (let copt = clicon_options h
      in if \<not> hash_lookup copt ''CLICON_CONFIGFILE''
         then Inl (OE_CFG, ''CLICON_CONFIGFILE (-f) not set'')
         else let configfile = hash_value copt ''CLICON_CONFIGFILE'';
                  copt1 = clicon_option_default sock_group master_plugin copt
              in (case clicon_option_readfile fs copt1 configfile of
                    Inl e \<Rightarrow> Inl e
                  | Inr copt2 \<Rightarrow>
                      (case clicon_option_sanity copt2 of
                         Inl e \<Rightarrow> Inl e
                       | Inr _ \<Rightarrow> Inr (h\<lparr>clicon_options := copt2\<rparr>))))"

definition clicon_option_exists :: "clicon_handle \<Rightarrow> string \<Rightarrow> bool" where
  "clicon_option_exists h name = hash_lookup (clicon_options h) name"

definition clicon_option_str :: "clicon_handle \<Rightarrow> string \<Rightarrow> string option" where
  "clicon_option_str h name =
     (if \<not> hash_lookup (clicon_options h) name then None
      else hash_value (clicon_options h) name)"

definition clicon_option_str_set :: "clicon_handle \<Rightarrow> string \<Rightarrow> string \<Rightarrow> int \<times> clicon_handle" where
  "clicon_option_str_set h name val =
     (case hash_add (clicon_options h) name val of
        None \<Rightarrow> (- 1, h)
      | Some copt \<Rightarrow> (0, h\<lparr>clicon_options := copt\<rparr>))"

text \<open>\<open>clicon_option_int\<close>; \<open>long_bit\<close> is the width of \<open>long\<close> that \<open>atoi\<close> works with.\<close>

definition clicon_option_int :: "nat \<Rightarrow> clicon_handle \<Rightarrow> string \<Rightarrow> int" where
  "clicon_option_int long_bit h name =
     (case clicon_option_str h name of
        None \<Rightarrow> - 1
      | Some s \<Rightarrow> atoi long_bit s)"

text \<open>\<open>clicon_option_int_set\<close>, for a value \<open>val\<close> of type \<open>int\<close>.\<close>

definition clicon_option_int_set :: "clicon_handle \<Rightarrow> string \<Rightarrow> int \<Rightarrow> int \<times> clicon_handle" where
  "clicon_option_int_set h name val = clicon_option_str_set h name (sprintf_u val)"

definition clicon_option_del :: "clicon_handle \<Rightarrow> string \<Rightarrow> int \<times> clicon_handle" where
  "clicon_option_del h name =
     (let (r, copt) = hash_del (clicon_options h) name
      in (r, h\<lparr>clicon_options := copt\<rparr>))"




text \<open>
  The handle as \<open>cli_handle_init\<close> leaves it: empty hashes, no syntax mode, no plugin,
  no error, logging on \<open>stderr\<close>, nothing written.
\<close>

definition clicon_handle_init :: clicon_handle where
  "clicon_handle_init =
     \<lparr>clicon_options = Map.empty, clicon_data = Map.empty,
      cli_cligen = \<lparr>ch_pt_head = [], ch_pt_head_active = None, ch_exiting = False,
                    ch_susp_hook = None, ch_interrupt_hook = None\<rparr>,
      clixon_plugins = [], clicon_errno = 0, clicon_suberrno = 0, clicon_err_reason = [],
      clicon_logflags = {CLICON_LOG_STDERR}, h_stdout = [], h_stderr = []\<rparr>"

text \<open>
  A configuration in which every required option but \<open>CLICON_BACKEND_DIR\<close> is set.
\<close>

definition copt_no_backend_dir :: clicon_hash_t where
  "copt_no_backend_dir =
     map_of [(''CLICON_CLI_DIR'', ''/usr/lib/cli''),
             (''CLICON_CLISPEC_DIR'', ''/usr/lib/clispec''),
             (''CLICON_NETCONF_DIR'', ''/usr/lib/netconf''),
             (''CLICON_RESTCONF_DIR'', ''/usr/lib/restconf''),
             (''CLICON_YANG_DIR'', ''/usr/share/yang''),
             (''CLICON_ARCHIVE_DIR'', ''/var/archive''),
             (''CLICON_SOCK'', ''/var/run/clicon.sock''),
             (''CLICON_BACKEND_PIDFILE'', ''/var/run/clicon.pid'')]"

section \<open>Symbol resolver (\<open>apps/cli/cli_plugin.c\<close>)\<close>

text \<open>
  The dynamic loader is outside the repository. A lookup, that is the sequence
  \<open>dlerror(); fn = dlsym(handle, name); error = dlerror();\<close>, yields the address (0 is
  \<open>NULL\<close>) and the error string (\<open>None\<close> is \<open>NULL\<close>, no error). \<open>dlsym_handle\<close> looks a
  name up in a module, \<open>dlsym_default\<close> in the global symbol space \<open>RTLD_DEFAULT\<close>.
  \<open>GENERATE_CALLBACK\<close> is a macro of \<open>cli_generate.h\<close>, which is not among the source
  files; its value is a parameter.
\<close>

record dl_env =
  GENERATE_CALLBACK :: string
  dlsym_handle :: "dl_handle \<Rightarrow> string \<Rightarrow> fnptr \<times> string option"
  dlsym_default :: "string \<Rightarrow> fnptr \<times> string option"

text \<open>\<open>clixon_str2fn\<close>: the function pointer returned and the final value of \<open>*error\<close>.\<close>

definition clixon_str2fn :: "dl_env \<Rightarrow> string \<Rightarrow> dl_handle option \<Rightarrow> fnptr \<times> string option" where
  "clixon_str2fn env name handle =
     (if name = GENERATE_CALLBACK env then (0, None)
      else let (fn1, error1) = (case handle of
                                  Some hdl \<Rightarrow> dlsym_handle env hdl name
                                | None \<Rightarrow> (0, None))
           in if handle \<noteq> None \<and> error1 = None then (fn1, None)
              else let (fn2, error2) = dlsym_default env name
                   in if error2 = None then (fn2, None) else (0, error2))"

text \<open>
  A loader for the examples: symbol tables as maps from name to address, and the
  message of a failed lookup.
\<close>

definition dlsym_table :: "(string \<rightharpoonup> fnptr) \<Rightarrow> string \<Rightarrow> fnptr \<times> string option" where
  "dlsym_table tab name =
     (case tab name of
        Some a \<Rightarrow> (a, None)
      | None \<Rightarrow> (0, Some (''undefined symbol: '' @ name)))"

definition dl_env_example :: dl_env where
  "dl_env_example =
     \<lparr>GENERATE_CALLBACK = ''overwrite_me'',
      dlsym_handle = (\<lambda>hdl. if hdl = 1 then dlsym_table (map_of [(''cli_set'', 100), (''cli_quit'', 101)])
                            else dlsym_table Map.empty),
      dlsym_default = dlsym_table (map_of [(''cli_quit'', 200), (''cli_show'', 201)])\<rparr>"

section \<open>Prompt renderer (\<open>apps/cli/cli_plugin.c\<close>)\<close>

text \<open>
  What the renderer reads from the system: the return value of \<open>gethostname\<close> and the
  content of \<open>hname\<close> after the call, the value of the environment variable \<open>USER\<close>
  (\<open>None\<close> when it is not set), and the return value of \<open>ttyname_r\<close> for \<open>stdin\<close> with
  the content of \<open>tty\<close> after the call. \<open>ttyname_r\<close> returns 0 when it has written the
  name of the terminal, and an error number, which is positive, when \<open>stdin\<close> is not a
  terminal. \<open>tty\<close> is not initialised, so after a failed \<open>ttyname_r\<close> its content is
  whatever the system left there.
\<close>

record prompt_env =
  pe_gethostname :: "int \<times> string"
  pe_getenv_USER :: "string option"
  pe_ttyname_r :: "int \<times> string"

definition backslash :: char where
  "backslash = CHR 0x5C"

text \<open>
  Modelled from the spec: \<open>clicon_data_get\<close> of \<open>clixon_data.c\<close>, which is not among the
  source files. The edit path is a process-wide string that is missing until a handler
  sets it: the function returns 0 and the stored string when the name is in the data
  hash, and -1 otherwise.
\<close>

definition clicon_data_get :: "clicon_handle \<Rightarrow> string \<Rightarrow> int \<times> string option" where
  "clicon_data_get h name =
     (case hash_value (clicon_data h) name of
        None \<Rightarrow> (- 1, None)
      | Some val \<Rightarrow> (0, Some val))"

text \<open>
  The loop \<open>for (i = strlen(path)-1; i >= 0; i--)\<close> of the \<open>%W\<close> case, which breaks at
  a separator that is not the last character. \<open>edit_path_scan path n\<close> is the value of
  \<open>i\<close> when the loop ends, started at \<open>i = n - 1\<close>; -1 when it ran to its end.
\<close>

fun edit_path_scan :: "string \<Rightarrow> nat \<Rightarrow> int" where
  "edit_path_scan path 0 = - 1"
| "edit_path_scan path (Suc i) =
     (if (path ! i = CHR ''/'' \<or> path ! i = CHR '':'') \<and> i < length path - 1
      then int i
      else edit_path_scan path i)"

text \<open>The \<open>switch\<close> after a \<open>%\<close>: what is appended to the buffer for the character \<open>c\<close>.\<close>

definition prompt_percent :: "prompt_env \<Rightarrow> clicon_handle \<Rightarrow> char \<Rightarrow> string" where
  "prompt_percent pe h c =
     (if c = CHR ''H'' then
        (let (rc, hname) = pe_gethostname pe
         in if rc \<noteq> 0 then ''unknown'' else hname)
      else if c = CHR ''U'' then
        (case pe_getenv_USER pe of Some tmp \<Rightarrow> tmp | None \<Rightarrow> ''nobody'')
      else if c = CHR ''T'' then
        (let (rc, tty) = pe_ttyname_r pe
         in if rc < 0 then ''notty'' else tty)
      else if c = CHR ''W'' then
        (case clicon_data_get h ''cli-edit-mode'' of
           (rc, Some path) \<Rightarrow>
             if rc = 0 \<and> length path \<noteq> 0
             then (let i = edit_path_scan path (length path)
                   in if i \<ge> 0 then drop (nat (i + 1)) path else path)
             else ''/''
         | (rc, None) \<Rightarrow> ''/'')
      else if c = CHR ''w'' then
        (case clicon_data_get h ''cli-edit-mode'' of
           (rc, Some path) \<Rightarrow> if rc = 0 \<and> length path \<noteq> 0 then path else ''/''
         | (rc, None) \<Rightarrow> ''/'')
      else [CHR ''%'', c])"

text \<open>
  The \<open>while (*s)\<close> loop: the rest of the format from \<open>s\<close> on, and the buffer \<open>cb\<close>
  written so far. When the last character of the format is \<open>%\<close> or a backslash, the
  test \<open>*++s\<close> has moved \<open>s\<close> onto the terminating NUL, the final \<open>s++\<close> moves it past
  the end of the string, and the next \<open>*s\<close> reads outside the format: the result is
  then \<open>None\<close>.
\<close>

fun prompt_loop :: "prompt_env \<Rightarrow> clicon_handle \<Rightarrow> string \<Rightarrow> string \<Rightarrow> string option" where
  "prompt_loop pe h [] cb = Some cb"
| "prompt_loop pe h [c] cb =
     (if c = CHR ''%'' \<or> c = backslash then None else Some (cb @ [c]))"
| "prompt_loop pe h (c # x # s) cb =
     (if c = CHR ''%'' then prompt_loop pe h s (cb @ prompt_percent pe h x)
      else if c = backslash then
        prompt_loop pe h s (cb @ (if x = CHR ''n'' then [newline] else [backslash, x]))
      else prompt_loop pe h (x # s) (cb @ [c]))"

text \<open>\<open>cli_prompt_get\<close>: an empty buffer is replaced by the default prompt.\<close>

definition cli_prompt_get :: "prompt_env \<Rightarrow> clicon_handle \<Rightarrow> string \<Rightarrow> string option" where
  "cli_prompt_get pe h fmt =
     (case prompt_loop pe h fmt [] of
        None \<Rightarrow> None
      | Some cb \<Rightarrow> Some (if length cb \<noteq> 0 then cb else CLI_DEFAULT_PROMPT))"

subsection \<open>The renderer as the specification words it\<close>

definition is_separator :: "char \<Rightarrow> bool" where
  "is_separator c = (c = CHR ''/'' \<or> c = CHR '':'')"

text \<open>
  The last segment of an edit path, ignoring one trailing separator: the characters
  after the last separator of the path without its trailing separator.
\<close>

definition last_segment :: "string \<Rightarrow> string" where
  "last_segment path =
     (let p = (if path \<noteq> [] \<and> is_separator (last path) then butlast path else path)
      in rev (takeWhile (\<lambda>c. \<not> is_separator c) (rev p)))"

text \<open>The same with the trailing separator, when there is one, left in place.\<close>

definition last_segment_sep :: "string \<Rightarrow> string" where
  "last_segment_sep path =
     last_segment path @ (if path \<noteq> [] \<and> is_separator (last path) then [last path] else [])"

definition edit_path :: "clicon_handle \<Rightarrow> string option" where
  "edit_path h = clicon_data h ''cli-edit-mode''"

text \<open>The name of the terminal of \<open>stdin\<close>, which \<open>ttyname_r\<close> writes when it succeeds.\<close>

definition tty_name :: "prompt_env \<Rightarrow> string" where
  "tty_name pe = snd (pe_ttyname_r pe)"

text \<open>The same, falling back to \<open>notty\<close> when \<open>ttyname_r\<close> does not succeed.\<close>

definition tty_fallback :: "prompt_env \<Rightarrow> string" where
  "tty_fallback pe = (if fst (pe_ttyname_r pe) = 0 then tty_name pe else ''notty'')"

text \<open>
  The expansion of one \<open>%\<close> escape. \<open>%W\<close> is the parameter \<open>seg\<close> applied to the edit
  path and \<open>%T\<close> is the parameter \<open>tty\<close> applied to the system, so that the claim's
  reading (\<^const>\<open>last_segment\<close>, \<^const>\<open>tty_fallback\<close>) and the code's
  (\<^const>\<open>last_segment_sep\<close>, and \<^const>\<open>tty_name\<close> after a successful \<open>ttyname_r\<close>)
  can be told apart.
\<close>

definition expand_percent ::
  "(string \<Rightarrow> string) \<Rightarrow> (prompt_env \<Rightarrow> string) \<Rightarrow> prompt_env \<Rightarrow> clicon_handle \<Rightarrow> char
     \<Rightarrow> string" where
  "expand_percent seg tty pe h c =
     (if c = CHR ''H'' then (if fst (pe_gethostname pe) \<noteq> 0 then ''unknown'' else snd (pe_gethostname pe))
      else if c = CHR ''U'' then (case pe_getenv_USER pe of None \<Rightarrow> ''nobody'' | Some u \<Rightarrow> u)
      else if c = CHR ''T'' then tty pe
      else if c = CHR ''W'' then
        (case edit_path h of None \<Rightarrow> ''/'' | Some path \<Rightarrow> if path = [] then ''/'' else seg path)
      else if c = CHR ''w'' then
        (case edit_path h of None \<Rightarrow> ''/'' | Some path \<Rightarrow> if path = [] then ''/'' else path)
      else [CHR ''%'', c])"

fun expand_format ::
  "(string \<Rightarrow> string) \<Rightarrow> (prompt_env \<Rightarrow> string) \<Rightarrow> prompt_env \<Rightarrow> clicon_handle \<Rightarrow> string
     \<Rightarrow> string" where
  "expand_format seg tty pe h (c # x # s) =
     (if c = CHR ''%'' then expand_percent seg tty pe h x @ expand_format seg tty pe h s
      else if c = backslash then
        (if x = CHR ''n'' then [newline] else [backslash, x]) @ expand_format seg tty pe h s
      else c # expand_format seg tty pe h (x # s))"
| "expand_format seg tty pe h s = s"

text \<open>\<open>has_escape e fmt\<close>: the escape \<open>%e\<close> occurs in the format.\<close>

fun has_escape :: "char \<Rightarrow> string \<Rightarrow> bool" where
  "has_escape e (c # x # s) =
     (if c = CHR ''%'' then x = e \<or> has_escape e s
      else if c = backslash then has_escape e s
      else has_escape e (x # s))"
| "has_escape e s = False"

text \<open>A format ends in an unpaired escape character when its last \<open>%\<close> or backslash starts an escape.\<close>

fun unpaired_escape :: "string \<Rightarrow> bool" where
  "unpaired_escape [] = False"
| "unpaired_escape [c] = (c = CHR ''%'' \<or> c = backslash)"
| "unpaired_escape (c # x # s) =
     (if c = CHR ''%'' \<or> c = backslash then unpaired_escape s else unpaired_escape (x # s))"

text \<open>
  Examples: a host \<open>router\<close>, user \<open>admin\<close>, \<open>stdin\<close> on the terminal \<open>/dev/pts/0\<close>; the
  same host with \<open>USER\<close> set to the empty string and \<open>stdin\<close> not a terminal, where
  \<open>ttyname_r\<close> returns \<open>ENOTTY\<close> (25) and \<open>tty\<close> holds the two characters \<open>xx\<close> that
  were there before the call; a handle with edit path \<open>/a/b/c/\<close>.
\<close>

definition prompt_env_example :: prompt_env where
  "prompt_env_example =
     \<lparr>pe_gethostname = (0, ''router''), pe_getenv_USER = Some ''admin'',
      pe_ttyname_r = (0, ''/dev/pts/0'')\<rparr>"

definition prompt_env_notty :: prompt_env where
  "prompt_env_notty =
     \<lparr>pe_gethostname = (0, ''router''), pe_getenv_USER = Some [],
      pe_ttyname_r = (25, ''xx'')\<rparr>"

definition handle_edit_abc :: clicon_handle where
  "handle_edit_abc = clicon_handle_init\<lparr>clicon_data := [''cli-edit-mode'' \<mapsto> ''/a/b/c/'']\<rparr>"

definition prompt_format_example :: string where
  "prompt_format_example =
     ''%H:%U@%T %W %w %q'' @ [backslash, CHR ''n'', backslash, CHR ''t''] @ ''> ''"

section \<open>The configuration file as the specification words it\<close>

text \<open>
  The lines of a text: the runs of characters between newlines; what follows the last
  newline is a line when it is not empty.
\<close>

fun text_lines :: "string \<Rightarrow> string list" where
  "text_lines [] = []"
| "text_lines (c # s) =
     (if c = newline then [] # text_lines s
      else (case text_lines s of [] \<Rightarrow> [[c]] | l # ls \<Rightarrow> (c # l) # ls))"

text \<open>The white-space-separated tokens of a line.\<close>

function tokens :: "string \<Rightarrow> string list" where
  "tokens s =
     (let s' = dropWhile isspace s
      in if s' = [] then []
         else takeWhile (\<lambda>c. \<not> isspace c) s' # tokens (dropWhile (\<lambda>c. \<not> isspace c) s'))"
  by pat_completeness auto
termination
proof (relation "measure length")
  show "wf (measure length)"
    by simp
next
  fix s s' :: string
  assume s': "s' = dropWhile isspace s" and ne: "s' \<noteq> []"
  from ne obtain c cs where cs: "s' = c # cs"
    by (cases s') simp_all
  have "\<not> isspace (hd (dropWhile isspace s))"
    using s' ne hd_dropWhile [of isspace s] by simp
  with s' cs have "\<not> isspace c"
    by (metis list.sel(1))
  with cs have "length (dropWhile (\<lambda>c. \<not> isspace c) s') \<le> length cs"
    by (simp add: length_dropWhile_le)
  also have "length cs < length s'"
    using cs by simp
  also have "length s' \<le> length s"
    using s' by (simp add: length_dropWhile_le)
  finally show "(dropWhile (\<lambda>c. \<not> isspace c) s', s) \<in> measure length"
    by simp
qed

declare tokens.simps [simp del]

text \<open>
  One line of the file: the comment, from the first \<open>#\<close> on, is stripped; a line with
  fewer than two tokens is skipped; otherwise the first token is the key and the second
  the value, and the pair is inserted, overwriting an earlier value of the key.
\<close>

definition config_line :: "clicon_hash_t \<Rightarrow> string \<Rightarrow> clicon_hash_t" where
  "config_line copt l =
     (case tokens (takeWhile (\<lambda>c. c \<noteq> CHR ''#'') l) of
        key # val # _ \<Rightarrow> copt(key \<mapsto> val)
      | _ \<Rightarrow> copt)"

definition config_text :: "clicon_hash_t \<Rightarrow> string \<Rightarrow> clicon_hash_t" where
  "config_text copt content = foldl config_line copt (text_lines content)"

text \<open>
  Examples. A small configuration file, one whose only line has 1024 characters (the key
  \<open>K\<close>, 1021 spaces and the value \<open>VW\<close>), one whose only line has a NUL byte in its
  first token, and one that sets \<open>CLICON_SOCK\<close> only.
\<close>

definition config_example :: string where
  "config_example =
     ''# clixon configuration'' @ [newline] @
     ''CLICON_SOCK   /var/run/a.sock  # first'' @ [newline] @
     ''CLICON_CLI_MODE'' @ [newline] @
     [newline] @
     ''CLICON_SOCK /s'' @ [newline]"

definition config_long_line :: string where
  "config_long_line = CHR ''K'' # replicate 1021 CHR '' '' @ ''VW'' @ [newline]"

definition config_nul :: string where
  "config_nul = ''K'' @ [NUL] @ ''X V'' @ [newline]"

definition config_sock_only :: string where
  "config_sock_only = ''CLICON_SOCK /s'' @ [newline]"

definition fs_example :: file_system where
  "fs_example path =
     (if path = ''/etc/clixon.conf''
      then Some \<lparr>st_isreg = True, f_content = Some config_example\<rparr>
      else if path = ''/etc/long.conf''
      then Some \<lparr>st_isreg = True, f_content = Some config_long_line\<rparr>
      else if path = ''/etc/nul.conf''
      then Some \<lparr>st_isreg = True, f_content = Some config_nul\<rparr>
      else if path = ''/etc/sock.conf''
      then Some \<lparr>st_isreg = True, f_content = Some config_sock_only\<rparr>
      else if path = ''/etc''
      then Some \<lparr>st_isreg = False, f_content = None\<rparr>
      else if path = ''/etc/shadow''
      then Some \<lparr>st_isreg = True, f_content = None\<rparr>
      else None)"

section \<open>Parse and evaluate (\<open>apps/cli/cli_plugin.c\<close>, \<open>apps/cli/cli_main.c\<close>)\<close>

text \<open>The five outcomes of CLIgen's \<open>cliread_parse\<close>; \<open>CG_MULTIPLE\<close> is the \<open>default\<close> case.\<close>

datatype cligen_result = CG_EOF | CG_ERROR | CG_NOMATCH | CG_MATCH | CG_MULTIPLE

text \<open>
  What the step calls outside the repository. \<open>cliread_parse\<close> parses a command line
  against a tree: \<open>None\<close> when it returns a negative value, otherwise the result, the
  callbacks of the matched object and the reason of a failed match. \<open>cligen_eval\<close>
  runs the callbacks of a match: the handlers may change anything in the handle, and
  return the handler's value. \<open>clicon_strerror\<close> names an error category, \<open>strerror\<close> an
  \<open>errno\<close> value.
\<close>

record parse_env =
  cliread_parse :: "parse_tree \<Rightarrow> string \<Rightarrow> (cligen_result \<times> string list \<times> string) option"
  cligen_eval :: "string list \<Rightarrow> clicon_handle \<Rightarrow> int \<times> clicon_handle"
  clicon_strerror :: "int \<Rightarrow> string"
  strerror :: "int \<Rightarrow> string"

text \<open>\<open>ESHUTDOWN\<close> of \<open><errno.h>\<close>, with its value on Linux.\<close>

definition ESHUTDOWN :: int where
  "ESHUTDOWN = 108"

datatype cfile = Stdout | Stderr

definition fprintf :: "cfile \<Rightarrow> string \<Rightarrow> clicon_handle \<Rightarrow> clicon_handle" where
  "fprintf f s h =
     (case f of
        Stdout \<Rightarrow> h\<lparr>h_stdout := h_stdout h @ s\<rparr>
      | Stderr \<Rightarrow> h\<lparr>h_stderr := h_stderr h @ s\<rparr>)"

text \<open>
  Modelled from the spec: \<open>clicon_err_reset\<close> of \<open>clixon_err.c\<close>, which is not among the
  source files. It clears the error channel: the three error variables.
\<close>

definition clicon_err_reset :: "clicon_handle \<Rightarrow> clicon_handle" where
  "clicon_err_reset h = h\<lparr>clicon_errno := 0, clicon_suberrno := 0, clicon_err_reason := []\<rparr>"

text \<open>\<open>cli_handler_err\<close>.\<close>

definition cli_handler_err :: "parse_env \<Rightarrow> cfile \<Rightarrow> clicon_handle \<Rightarrow> clicon_handle" where
  "cli_handler_err pe f h =
     (if clicon_errno h \<noteq> 0 then
        (if CLICON_LOG_STDERR \<notin> clicon_logflags h then
           (let h1 = fprintf f (clicon_strerror pe (clicon_errno h) @ '': '' @ clicon_err_reason h) h;
                h2 = (if clicon_suberrno h1 \<noteq> 0
                      then fprintf f ('': '' @ strerror pe (clicon_suberrno h1)) h1 else h1)
            in fprintf f [newline] h2)
         else fprintf f (''CLI command error'' @ [newline]) h)
      else h)"

definition cligen_exiting :: "clicon_handle \<Rightarrow> bool" where
  "cligen_exiting h = ch_exiting (cli_cligen h)"

definition cli_set_exiting :: "clicon_handle \<Rightarrow> bool \<Rightarrow> clicon_handle" where
  "cli_set_exiting h e = h\<lparr>cli_cligen := (cli_cligen h)\<lparr>ch_exiting := e\<rparr>\<rparr>"

text \<open>\<open>cli_syntax_mode\<close>: the name of the active head, \<open>None\<close> when there is none.\<close>

definition cli_syntax_mode :: "clicon_handle \<Rightarrow> string option" where
  "cli_syntax_mode h = ch_pt_head_active (cli_cligen h)"

text \<open>\<open>cli_set_syntax_mode\<close>: 1 and the head made active, or 0 when there is no such head.\<close>

definition cli_set_syntax_mode :: "clicon_handle \<Rightarrow> string \<Rightarrow> int \<times> clicon_handle" where
  "cli_set_syntax_mode h name =
     (case cligen_ph_find (ch_pt_head (cli_cligen h)) name of
        None \<Rightarrow> (0, h)
      | Some ph \<Rightarrow> (1, h\<lparr>cli_cligen := (cli_cligen h)\<lparr>ch_pt_head_active := Some name\<rparr>\<rparr>))"

text \<open>
  What \<open>clicon_parse\<close> returns and leaves behind: its return value, the handle, and the
  values written through \<open>result\<close> and \<open>evalres\<close> (\<open>None\<close> when nothing was written).
\<close>

record parse_return =
  pr_retval :: int
  pr_handle :: clicon_handle
  pr_result :: "cligen_result option"
  pr_evalres :: "int option"

text \<open>
  \<open>clicon_parse\<close>. \<open>modename\<close> is the string \<open>*modenamep\<close> points to (\<open>None\<close> for \<open>NULL\<close>,
  which names no head). The local \<open>modename\<close> is never changed after it was read from
  \<open>*modenamep\<close>, so the \<open>strcmp\<close> of the \<open>CG_MATCH\<close> case finds the two equal and the
  mode is not switched there. For a head that was found, \<open>cligen_ph_active_set_byname\<close>
  makes it the active one and \<open>cligen_pt_active_get\<close> returns its tree.
  \<open>cli_output_reset\<close> and \<open>fflush\<close> change nothing that is modelled.
\<close>

definition clicon_parse :: "parse_env \<Rightarrow> clicon_handle \<Rightarrow> string \<Rightarrow> string option \<Rightarrow> parse_return" where
  "clicon_parse pe h cmd modename =
     (let f = (if CLICON_LOG_STDOUT \<in> clicon_logflags h then Stdout else Stderr);
          ph = (case modename of
                  None \<Rightarrow> None
                | Some name \<Rightarrow> cligen_ph_find (ch_pt_head (cli_cligen h)) name)
      in case ph of
           None \<Rightarrow> \<lparr>pr_retval = 0, pr_handle = h, pr_result = None, pr_evalres = None\<rparr>
         | Some ph \<Rightarrow>
             (let h0 = h\<lparr>cli_cligen := (cli_cligen h)\<lparr>ch_pt_head_active := modename\<rparr>\<rparr>;
                  pt = ph_parsetree ph
              in case cliread_parse pe pt cmd of
                   None \<Rightarrow> \<lparr>pr_retval = - 1, pr_handle = h0, pr_result = None, pr_evalres = None\<rparr>
                 | Some (res, callbacks, reason) \<Rightarrow>
                     (case res of
                        CG_EOF \<Rightarrow>
                          \<lparr>pr_retval = 0,
                           pr_handle = fprintf f (''CLI parse error: '' @ cmd @ [newline]) h0,
                           pr_result = Some res, pr_evalres = None\<rparr>
                      | CG_ERROR \<Rightarrow>
                          \<lparr>pr_retval = 0,
                           pr_handle = fprintf f (''CLI parse error: '' @ cmd @ [newline]) h0,
                           pr_result = Some res, pr_evalres = None\<rparr>
                      | CG_NOMATCH \<Rightarrow>
                          \<lparr>pr_retval = 0,
                           pr_handle = fprintf f (''CLI syntax error: \"'' @ cmd @ ''\": '' @ reason
                                               @ [newline]) h0,
                           pr_result = Some res, pr_evalres = None\<rparr>
                      | CG_MATCH \<Rightarrow>
                          (if \<not> cligen_exiting h0 then
                             (let h1 = clicon_err_reset h0;
                                  (ret, h2) = cligen_eval pe callbacks h1
                              in if ret < 0 then
                                   (let h3 = cli_handler_err pe Stdout h2
                                    in if clicon_suberrno h3 = ESHUTDOWN
                                       then \<lparr>pr_retval = - 1, pr_handle = h3, pr_result = Some res,
                                             pr_evalres = None\<rparr>
                                       else \<lparr>pr_retval = 0, pr_handle = h3, pr_result = Some res,
                                             pr_evalres = Some ret\<rparr>)
                                 else \<lparr>pr_retval = 0, pr_handle = h2, pr_result = Some res,
                                       pr_evalres = Some ret\<rparr>)
                           else \<lparr>pr_retval = 0, pr_handle = h0, pr_result = Some res, pr_evalres = Some 0\<rparr>)
                      | CG_MULTIPLE \<Rightarrow>
                          \<lparr>pr_retval = 0,
                           pr_handle = fprintf f (''CLI syntax error: \"'' @ cmd @ ''\" is ambiguous''
                                               @ [newline]) h0,
                           pr_result = Some res, pr_evalres = None\<rparr>)))"

text \<open>
  \<open>cli_interactive\<close> of \<open>cli_main.c\<close>, the read-eval loop. The lines \<open>clicon_cliread\<close>
  will return are the list \<open>input\<close>; at its end \<open>clicon_cliread\<close> returns \<open>NULL\<close>. The
  function returns the handle at the end of the loop and the lines left unread.
\<close>

fun cli_interactive :: "parse_env \<Rightarrow> string list \<Rightarrow> clicon_handle \<Rightarrow> clicon_handle \<times> string list" where
  "cli_interactive pe [] h =
     (if cligen_exiting h then (h, []) else (cli_set_exiting h True, []))"
| "cli_interactive pe (cmd # input) h =
     (if cligen_exiting h then (h, cmd # input)
      else let new_mode = cli_syntax_mode h;
               r = clicon_parse pe h cmd new_mode
           in if pr_retval r < 0 then (pr_handle r, input)
              else cli_interactive pe input (pr_handle r))"

text \<open>
  Examples. A parser that matches \<open>fail\<close>, \<open>shutdown\<close> and \<open>show\<close>; handlers of which
  that of \<open>fail\<close> raises an error with no sub-error and that of \<open>shutdown\<close> one with
  sub-error \<open>ESHUTDOWN\<close>; a handle with the mode \<open>base\<close> active and logging on syslog.
\<close>

definition parse_env_example :: parse_env where
  "parse_env_example =
     \<lparr>cliread_parse = (\<lambda>pt cmd.
        if cmd = ''fail'' then Some (CG_MATCH, [''cli_fail''], [])
        else if cmd = ''shutdown'' then Some (CG_MATCH, [''cli_shutdown''], [])
        else if cmd = ''show'' then Some (CG_MATCH, [''cli_show''], [])
        else Some (CG_NOMATCH, [], ''Unknown command'')),
      cligen_eval = (\<lambda>cbs h.
        if cbs = [''cli_fail'']
        then (- 1, h\<lparr>clicon_errno := 5, clicon_suberrno := 0, clicon_err_reason := ''commit''\<rparr>)
        else if cbs = [''cli_shutdown'']
        then (- 1, h\<lparr>clicon_errno := 5, clicon_suberrno := ESHUTDOWN,
                       clicon_err_reason := ''send''\<rparr>)
        else (0, h\<lparr>h_stdout := h_stdout h @ ''ok'' @ [newline]\<rparr>)),
      clicon_strerror = (\<lambda>e. ''Config error''),
      strerror = (\<lambda>e. ''Cannot send after transport endpoint shutdown'')\<rparr>"

definition handle_base :: clicon_handle where
  "handle_base =
     clicon_handle_init
       \<lparr>cli_cligen := \<lparr>ch_pt_head = [\<lparr>ph_name = ''base'', ph_parsetree = [],
                                        ph_prompt = ''cli> ''\<rparr>],
                       ch_pt_head_active = Some ''base'', ch_exiting = False,
                       ch_susp_hook = None, ch_interrupt_hook = None\<rparr>,
        clicon_logflags := {CLICON_LOG_SYSLOG}\<rparr>"

section \<open>Grammar loader (\<open>apps/cli/cli_plugin.c\<close>)\<close>





text \<open>
  Modelled from the spec: CLIgen's \<open>cligen_callbackv_str2fn\<close>, \<open>cligen_expandv_str2fn\<close>
  and \<open>cligen_translate_str2fn\<close>, which resolve every callback, expansion and
  translation name of a tree with the given resolver and fail at the first name that
  leaves an error. \<open>pt_resolve\<close> walks the tree; \<open>names\<close> selects the names of a node.
  The function pointers stored in the tree are not modelled.
\<close>

fun pt_resolve :: "(string \<Rightarrow> bool) \<Rightarrow> (cg_obj \<Rightarrow> string list) \<Rightarrow> parse_tree \<Rightarrow> bool"
and co_resolve :: "(string \<Rightarrow> bool) \<Rightarrow> (cg_obj \<Rightarrow> string list) \<Rightarrow> cg_obj \<Rightarrow> bool" where
  "pt_resolve ok names [] = True"
| "pt_resolve ok names (co # pt) = (co_resolve ok names co \<and> pt_resolve ok names pt)"
| "co_resolve ok names (CgObj c t cbs ex tr cs) =
     (list_all ok (names (CgObj c t cbs ex tr cs)) \<and> pt_resolve ok names cs)"




















subsection \<open>The files a load reads, and the universal ones among them\<close>








subsection \<open>The invariant of the loader\<close>




section \<open>Properties of the option registry\<close>

text \<open>
  Claim C4. For every option name \<open>k\<close> and every string \<open>v\<close>, \<open>clicon_option_str_set\<close>
  succeeds, after it \<open>clicon_option_exists\<close> holds of \<open>k\<close> and \<open>clicon_option_str\<close> returns
  \<open>v\<close> unchanged, and after a following \<open>clicon_option_del\<close> \<open>clicon_option_exists\<close> no
  longer holds of \<open>k\<close>.
\<close>

theorem option_set_get_del:
  "fst (clicon_option_str_set h k v) = 0
   \<and> clicon_option_exists (snd (clicon_option_str_set h k v)) k
   \<and> clicon_option_str (snd (clicon_option_str_set h k v)) k = Some v
   \<and> fst (clicon_option_del (snd (clicon_option_str_set h k v)) k) = 0
   \<and> \<not> clicon_option_exists (snd (clicon_option_del (snd (clicon_option_str_set h k v)) k)) k"
  by (simp add: clicon_option_str_set_def clicon_option_exists_def clicon_option_str_def
      clicon_option_del_def hash_add_def hash_lookup_def hash_value_def hash_del_def)

theorem option_set_get_del_witness:
  "clicon_option_str (snd (clicon_option_str_set clicon_handle_init ''CLICON_SOCK''
      ''/var/run/my  clicon.sock'')) ''CLICON_SOCK'' = Some ''/var/run/my  clicon.sock''
   \<and> \<not> clicon_option_exists (snd (clicon_option_del (snd (clicon_option_str_set
      clicon_handle_init ''CLICON_SOCK'' ''/var/run/my  clicon.sock'')) ''CLICON_SOCK''))
      ''CLICON_SOCK''"
  using option_set_get_del [of clicon_handle_init "''CLICON_SOCK''" "''/var/run/my  clicon.sock''"]
  by simp

text \<open>
  The half of claim C2 that holds: the check succeeds exactly when the nine options are
  all present.
\<close>

lemma option_sanity_iff:
  "clicon_option_sanity copt = Inr () \<longleftrightarrow> (\<forall>key \<in> set sanity_required. hash_lookup copt key)"
  by (simp add: clicon_option_sanity_def sanity_required_def)

lemma option_sanity_iff_witness:
  "clicon_option_sanity (copt_no_backend_dir(''CLICON_BACKEND_DIR'' \<mapsto> ''/usr/lib/backend'')) = Inr ()"
  using option_sanity_iff [of "copt_no_backend_dir(''CLICON_BACKEND_DIR'' \<mapsto> ''/usr/lib/backend'')"]
  by (simp add: sanity_required_def copt_no_backend_dir_def hash_lookup_def)

text \<open>
  Claim C2, at the failing input. With every required option set but
  \<open>CLICON_BACKEND_DIR\<close>, \<open>clicon_option_sanity\<close> fails, and its message names
  \<open>CLICON_BACKEND_PIDFILE\<close>, an option that is set, instead of the missing one.
\<close>

theorem option_sanity_backend_dir_message:
  "clicon_option_sanity copt_no_backend_dir
     = Inl (OE_UNIX, ''CLICON_BACKEND_PIDFILE not defined in config file'')
   \<and> hash_lookup copt_no_backend_dir ''CLICON_BACKEND_PIDFILE''
   \<and> \<not> hash_lookup copt_no_backend_dir ''CLICON_BACKEND_DIR''"
  by (simp add: clicon_option_sanity_def copt_no_backend_dir_def hash_lookup_def)

lemma digit_cases:
  "d < 10 \<Longrightarrow> d = 0 \<or> d = 1 \<or> d = 2 \<or> d = 3 \<or> d = 4 \<or> d = 5 \<or> d = 6 \<or> d = 7 \<or> d = 8 \<or> d = (9::nat)"
  by arith

lemma digit_char_props:
  assumes "d < 10"
  shows "isdigit (digit_char d)" and "\<not> isspace (digit_char d)"
    and "digit_char d \<noteq> CHR ''-''" and "digit_char d \<noteq> CHR ''+''"
    and "digit_val (digit_char d) = int d"
  using digit_cases [OF assms]
  by (auto simp: digit_char_def isdigit_def isspace_def digit_val_def)

lemma dec_nonempty: "dec n \<noteq> []"
  by (induction n rule: dec.induct) (subst dec.simps, simp)

lemma dec_hd: "\<exists>d<10. hd (dec n) = digit_char d"
proof (induction n rule: dec.induct)
  case (1 n)
  show ?case
  proof (cases "n < 10")
    case True
    then show ?thesis by (subst dec.simps) auto
  next
    case False
    with 1 obtain d where "d < 10" "hd (dec (n div 10)) = digit_char d" by auto
    with False show ?thesis
      by (subst dec.simps) (auto simp: dec_nonempty)
  qed
qed

lemma dec_digits: "\<forall>c \<in> set (dec n). isdigit c"
proof (induction n rule: dec.induct)
  case (1 n)
  show ?case
  proof (cases "n < 10")
    case True
    then show ?thesis by (subst dec.simps) (simp add: digit_char_props)
  next
    case False
    with 1 show ?thesis
      by (subst dec.simps) (simp add: digit_char_props)
  qed
qed

lemma strtol_digits_snoc:
  "\<forall>c \<in> set xs. isdigit c \<Longrightarrow> d < 10 \<Longrightarrow>
   strtol_digits acc (xs @ [digit_char d]) = strtol_digits acc xs * 10 + int d"
  by (induction xs arbitrary: acc) (simp_all add: digit_char_props)

lemma strtol_digits_dec: "strtol_digits 0 (dec n) = int n"
proof (induction n rule: dec.induct)
  case (1 n)
  show ?case
  proof (cases "n < 10")
    case True
    then show ?thesis by (subst dec.simps) (simp add: digit_char_props)
  next
    case False
    then have "strtol_digits 0 (dec n) = strtol_digits 0 (dec (n div 10)) * 10 + int (n mod 10)"
      by (subst dec.simps) (simp add: strtol_digits_snoc dec_digits)
    also have "\<dots> = int (n div 10) * 10 + int (n mod 10)"
      using 1 False by simp
    also have "\<dots> = int n"
      by (simp add: zdiv_int zmod_int)
    finally show ?thesis .
  qed
qed

lemma strtol_dec:
  "strtol lb (dec n) = max (- (2 ^ (lb - 1))) (min (2 ^ (lb - 1) - 1) (int n))"
proof -
  obtain d where d: "d < 10" "hd (dec n) = digit_char d"
    using dec_hd by blast
  have ne: "dec n \<noteq> []" by (rule dec_nonempty)
  then obtain c cs where cs: "dec n = c # cs" by (cases "dec n") auto
  with d have c: "c = digit_char d" by simp
  have "dropWhile isspace (dec n) = dec n"
    using cs c d by (simp add: digit_char_props)
  then show ?thesis
    using cs c d strtol_digits_dec [of n]
    by (simp add: strtol_def Let_def digit_char_props)
qed

lemma atoi_dec_nonneg:
  assumes "int n \<le> INT_MAX" "32 \<le> lb"
  shows "atoi lb (dec n) = int n"
proof -
  have "(2::int) ^ 31 \<le> 2 ^ (lb - 1)"
    using assms(2) by (intro power_increasing) auto
  with assms(1) have "strtol lb (dec n) = int n"
    by (simp add: strtol_dec INT_MAX_def)
  with assms(1) show ?thesis
    by (simp add: atoi_def int_cast_def INT_MAX_def)
qed

lemma atoi_dec_64:
  assumes "int n < 2 ^ 32"
  shows "atoi 64 (dec n) = int_cast (int n)"
  using assms by (simp add: atoi_def strtol_dec)

lemma atoi_dec_32:
  assumes "2 ^ 31 \<le> int n"
  shows "atoi 32 (dec n) = INT_MAX"
  using assms by (simp add: atoi_def strtol_dec int_cast_def INT_MAX_def)

lemma option_str_set_get:
  "clicon_option_str (snd (clicon_option_str_set h k v)) k = Some v"
  by (simp add: clicon_option_str_def clicon_option_str_set_def hash_add_def hash_lookup_def
      hash_value_def)

text \<open>
  Claim C10, as the code has it. For a value \<open>v\<close> of type \<open>int\<close>,
  \<open>clicon_option_int_set\<close> stores the decimal digits of the unsigned 32-bit reading of
  \<open>v\<close>: of \<open>2^32 + v\<close> when \<open>v\<close> is negative, of \<open>v\<close> otherwise. For a non-negative \<open>v\<close>,
  \<open>clicon_option_int\<close> then returns \<open>v\<close>. For a negative \<open>v\<close> the stored number is above
  \<open>INT_MAX\<close> and the result is what \<open>atoi\<close> makes of it: with a 64-bit \<open>long\<close> the
  conversion to \<open>int\<close> gives \<open>v\<close> back, with a 32-bit \<open>long\<close> \<open>strtol\<close> saturates and the
  result is \<open>INT_MAX\<close>.
\<close>

theorem option_int_set_get:
  assumes "INT_MIN \<le> v" and "v \<le> INT_MAX"
  shows "clicon_option_str (snd (clicon_option_int_set h k v)) k
           = Some (dec (nat (if v < 0 then 2 ^ 32 + v else v)))
       \<and> (0 \<le> v \<and> 32 \<le> lb \<longrightarrow> clicon_option_int lb (snd (clicon_option_int_set h k v)) k = v)
       \<and> (v < 0 \<longrightarrow> clicon_option_int 64 (snd (clicon_option_int_set h k v)) k = v)
       \<and> (v < 0 \<longrightarrow> clicon_option_int 32 (snd (clicon_option_int_set h k v)) k = INT_MAX)"
proof -
  let ?h = "snd (clicon_option_int_set h k v)"
  let ?n = "nat (v mod 2 ^ 32)"
  have stored: "clicon_option_str ?h k = Some (dec ?n)"
    by (simp add: clicon_option_int_set_def sprintf_u_def option_str_set_get)
  have get: "clicon_option_int lb' ?h k = atoi lb' (dec ?n)" for lb'
    by (simp add: clicon_option_int_def stored)
  have pos: "v mod 2 ^ 32 = v" if "0 \<le> v"
    using that assms(2) by (simp add: INT_MAX_def)
  have neg: "v mod 2 ^ 32 = 2 ^ 32 + v" if "v < 0"
  proof -
    have "v mod 2 ^ 32 = (v + 2 ^ 32) mod 2 ^ 32" by simp
    also have "\<dots> = v + 2 ^ 32"
      using that assms(1) by (intro mod_pos_pos_trivial) (simp_all add: INT_MIN_def)
    finally show ?thesis by simp
  qed
  have c1: "clicon_option_str ?h k = Some (dec (nat (if v < 0 then 2 ^ 32 + v else v)))"
    using stored pos neg by (cases "v < 0") simp_all
  have c2: "clicon_option_int lb ?h k = v" if "0 \<le> v" "32 \<le> lb"
    using that assms(2) pos by (simp add: get atoi_dec_nonneg)
  have c3: "clicon_option_int 64 ?h k = v" if "v < 0"
  proof -
    have "atoi 64 (dec ?n) = int_cast (2 ^ 32 + v)"
      using that assms(1) neg by (simp add: atoi_dec_64 INT_MIN_def)
    also have "\<dots> = v"
    proof -
      have "(2 ^ 32 + v + 2 ^ 31) mod 2 ^ 32 = ((v + 2 ^ 31) + 2 ^ 32) mod (2 ^ 32 :: int)"
        by (simp add: add.commute add.left_commute)
      also have "\<dots> = (v + 2 ^ 31) mod 2 ^ 32"
        by (rule mod_add_self2)
      also have "\<dots> = v + 2 ^ 31"
        using that assms(1) by (intro mod_pos_pos_trivial) (simp_all add: INT_MIN_def)
      finally show ?thesis by (simp add: int_cast_def)
    qed
    finally show ?thesis by (simp add: get)
  qed
  have c4: "clicon_option_int 32 ?h k = INT_MAX" if "v < 0"
    using that assms(1) neg by (simp add: get atoi_dec_32 INT_MIN_def)
  from c1 c2 c3 c4 show ?thesis by blast
qed

theorem option_int_set_get_witness:
  "INT_MIN \<le> - 5 \<and> - 5 \<le> INT_MAX
   \<and> clicon_option_str (snd (clicon_option_int_set clicon_handle_init ''CLICON_AUTOCOMMIT'' (- 5)))
        ''CLICON_AUTOCOMMIT'' = Some ''4294967291''
   \<and> clicon_option_int 64 (snd (clicon_option_int_set clicon_handle_init ''CLICON_AUTOCOMMIT'' (- 5)))
        ''CLICON_AUTOCOMMIT'' = - 5
   \<and> clicon_option_int 32 (snd (clicon_option_int_set clicon_handle_init ''CLICON_AUTOCOMMIT'' (- 5)))
        ''CLICON_AUTOCOMMIT'' = INT_MAX
   \<and> clicon_option_int 64 (snd (clicon_option_int_set clicon_handle_init ''CLICON_AUTOCOMMIT'' 7))
        ''CLICON_AUTOCOMMIT'' = 7"
proof -
  have r: "INT_MIN \<le> - 5" "- 5 \<le> INT_MAX" "INT_MIN \<le> 7" "7 \<le> INT_MAX"
    by (simp_all add: INT_MIN_def INT_MAX_def)
  have d: "dec 4294967291 = ''4294967291''"
    by (simp add: dec.simps digit_char_def)
  show ?thesis
    using option_int_set_get [OF r(1) r(2), of clicon_handle_init "''CLICON_AUTOCOMMIT''" 64]
      option_int_set_get [OF r(3) r(4), of clicon_handle_init "''CLICON_AUTOCOMMIT''" 64]
      r d
    by simp
qed

text \<open>
  The claim as stated says that no negative value survives the round trip. With a
  64-bit \<open>long\<close>, -1 is stored as \<open>4294967295\<close> and read back as -1.
\<close>

theorem option_int_negative_roundtrip_counterexample:
  "clicon_option_int 64 (snd (clicon_option_int_set clicon_handle_init ''CLICON_AUTOCOMMIT'' (- 1)))
     ''CLICON_AUTOCOMMIT'' = - 1"
  by (simp add: clicon_option_int_def clicon_option_int_set_def clicon_option_str_set_def
      clicon_option_str_def hash_add_def hash_lookup_def hash_value_def clicon_handle_init_def
      sprintf_u_def dec.simps digit_char_def atoi_def strtol_def int_cast_def isspace_def
      isdigit_def digit_val_def Let_def)

section \<open>Properties of the symbol resolver\<close>

text \<open>
  Claim C3. \<open>clixon_str2fn\<close> returns \<open>NULL\<close> with no error for the auto-generate
  callback name. For any other name, when a plugin handle is given and the lookup in
  that module leaves no error, it returns that lookup's result. Otherwise (no handle, or
  the lookup in the module failed) it looks the name up in the global symbol space and
  returns that result when it leaves no error; when the global lookup fails too, it
  returns \<open>NULL\<close> with the error set.
\<close>

theorem str2fn_resolution:
  "(name = GENERATE_CALLBACK env \<longrightarrow> clixon_str2fn env name handle = (0, None))
   \<and> (name \<noteq> GENERATE_CALLBACK env \<and> handle = Some hdl \<and> snd (dlsym_handle env hdl name) = None
        \<longrightarrow> clixon_str2fn env name handle = (fst (dlsym_handle env hdl name), None))
   \<and> (name \<noteq> GENERATE_CALLBACK env
        \<and> (handle = None \<or> handle = Some hdl \<and> snd (dlsym_handle env hdl name) \<noteq> None)
        \<and> snd (dlsym_default env name) = None
        \<longrightarrow> clixon_str2fn env name handle = (fst (dlsym_default env name), None))
   \<and> (name \<noteq> GENERATE_CALLBACK env
        \<and> (handle = None \<or> handle = Some hdl \<and> snd (dlsym_handle env hdl name) \<noteq> None)
        \<and> snd (dlsym_default env name) \<noteq> None
        \<longrightarrow> fst (clixon_str2fn env name handle) = 0
            \<and> snd (clixon_str2fn env name handle) = snd (dlsym_default env name)
            \<and> snd (clixon_str2fn env name handle) \<noteq> None)"
  by (auto simp: clixon_str2fn_def split: prod.splits option.splits)

theorem str2fn_resolution_witness:
  "clixon_str2fn dl_env_example ''overwrite_me'' (Some 1) = (0, None)
   \<and> clixon_str2fn dl_env_example ''cli_quit'' (Some 1) = (101, None)
   \<and> clixon_str2fn dl_env_example ''cli_show'' (Some 1) = (201, None)
   \<and> clixon_str2fn dl_env_example ''cli_quit'' None = (200, None)
   \<and> clixon_str2fn dl_env_example ''cli_none'' (Some 1) = (0, Some ''undefined symbol: cli_none'')"
proof -
  have "clixon_str2fn dl_env_example ''overwrite_me'' (Some 1) = (0, None)"
    using str2fn_resolution [of "''overwrite_me''" dl_env_example "Some 1" 1]
    by (simp add: dl_env_example_def)
  moreover have "clixon_str2fn dl_env_example ''cli_quit'' (Some 1) = (101, None)"
    using str2fn_resolution [of "''cli_quit''" dl_env_example "Some 1" 1]
    by (simp add: dl_env_example_def dlsym_table_def)
  moreover have "clixon_str2fn dl_env_example ''cli_show'' (Some 1) = (201, None)"
    using str2fn_resolution [of "''cli_show''" dl_env_example "Some 1" 1]
    by (simp add: dl_env_example_def dlsym_table_def)
  moreover have "clixon_str2fn dl_env_example ''cli_quit'' None = (200, None)"
    using str2fn_resolution [of "''cli_quit''" dl_env_example None 1]
    by (simp add: dl_env_example_def dlsym_table_def)
  moreover have "clixon_str2fn dl_env_example ''cli_none'' (Some 1)
                   = (0, Some ''undefined symbol: cli_none'')"
    using str2fn_resolution [of "''cli_none''" dl_env_example "Some 1" 1]
    by (simp add: dl_env_example_def dlsym_table_def prod_eq_iff)
  ultimately show ?thesis by blast
qed

section \<open>Properties of the prompt renderer\<close>

lemma edit_path_scan_append:
  "q \<noteq> [] \<Longrightarrow>
   (let i = edit_path_scan (p @ q) (length p)
    in if i \<ge> 0 then drop (nat (i + 1)) (p @ q) else p @ q)
     = rev (takeWhile (\<lambda>c. \<not> is_separator c) (rev p)) @ q"
proof (induction p arbitrary: q rule: rev_induct)
  case Nil
  then show ?case by simp
next
  case (snoc x p)
  have app: "(p @ [x]) @ q = p @ x # q"
    by simp
  have len: "length p < length (p @ x # q) - 1"
    using snoc.prems by (cases q) auto
  have scan: "edit_path_scan (p @ x # q) (length (p @ [x])) =
      (if is_separator x then int (length p) else edit_path_scan (p @ x # q) (length p))"
    using len by (simp add: is_separator_def)
  show ?case
  proof (cases "is_separator x")
    case True
    have "nat (int (length p) + 1) = Suc (length p)"
      by linarith
    then have "drop (nat (int (length p) + 1)) (p @ x # q) = q"
      by simp
    moreover have "rev (takeWhile (\<lambda>c. \<not> is_separator c) (rev (p @ [x]))) = []"
      using True by simp
    ultimately show ?thesis
      unfolding app scan using True by (simp only: Let_def if_True of_nat_0_le_iff append_Nil)
  next
    case False
    have seg: "rev (takeWhile (\<lambda>c. \<not> is_separator c) (rev (p @ [x]))) @ q
                 = rev (takeWhile (\<lambda>c. \<not> is_separator c) (rev p)) @ x # q"
      using False by simp
    have "(let i = edit_path_scan (p @ x # q) (length p)
          in if i \<ge> 0 then drop (nat (i + 1)) (p @ x # q) else p @ x # q)
          = rev (takeWhile (\<lambda>c. \<not> is_separator c) (rev p)) @ x # q"
      by (rule snoc.IH) simp
    then show ?thesis
      unfolding app scan seg using False by (simp only: if_False)
  qed
qed

lemma edit_path_scan_segment:
  assumes "path \<noteq> []"
  shows "(let i = edit_path_scan path (length path)
          in if i \<ge> 0 then drop (nat (i + 1)) path else path) = last_segment_sep path"
proof -
  obtain p l where path: "path = p @ [l]"
    using assms by (cases path rule: rev_cases) auto
  have first: "edit_path_scan (p @ [l]) (length (p @ [l])) = edit_path_scan (p @ [l]) (length p)"
    by simp
  have "(let i = edit_path_scan (p @ [l]) (length p)
         in if i \<ge> 0 then drop (nat (i + 1)) (p @ [l]) else p @ [l])
          = rev (takeWhile (\<lambda>c. \<not> is_separator c) (rev p)) @ [l]"
    by (rule edit_path_scan_append) simp
  moreover have "last_segment_sep (p @ [l]) = rev (takeWhile (\<lambda>c. \<not> is_separator c) (rev p)) @ [l]"
    by (simp add: last_segment_sep_def last_segment_def)
  ultimately show ?thesis
    unfolding path first by simp
qed

lemma prompt_percent_expand:
  assumes "c = CHR ''T'' \<longrightarrow> fst (pe_ttyname_r pe) = 0"
  shows "prompt_percent pe h c = expand_percent last_segment_sep tty_name pe h c"
proof (cases "clicon_data h ''cli-edit-mode''")
  case None
  then show ?thesis
    using assms
    by (auto simp: prompt_percent_def expand_percent_def tty_name_def clicon_data_get_def
        hash_value_def edit_path_def split: prod.splits option.splits)
next
  case (Some path)
  then show ?thesis
    using assms edit_path_scan_segment [of path]
    by (cases "path = []")
      (auto simp: prompt_percent_def expand_percent_def tty_name_def clicon_data_get_def
        hash_value_def edit_path_def Let_def split: prod.splits option.splits)
qed

lemma prompt_loop_expand:
  "has_escape (CHR ''T'') fmt \<longrightarrow> fst (pe_ttyname_r pe) = 0 \<Longrightarrow>
   prompt_loop pe h fmt cb =
     (if unpaired_escape fmt then None
      else Some (cb @ expand_format last_segment_sep tty_name pe h fmt))"
proof (induction pe h fmt cb rule: prompt_loop.induct)
  case (1 pe h cb)
  then show ?case by simp
next
  case (2 pe h c cb)
  then show ?case by simp
next
  case (3 pe h c x s cb)
  show ?case
  proof (cases "c = CHR ''%''")
    case True
    from "3.prems" True have x: "x = CHR ''T'' \<longrightarrow> fst (pe_ttyname_r pe) = 0"
      and s: "has_escape (CHR ''T'') s \<longrightarrow> fst (pe_ttyname_r pe) = 0"
      by simp_all
    show ?thesis
      using True "3.IH"(1) [OF True s] by (simp add: prompt_percent_expand [OF x])
  next
    case False
    show ?thesis
    proof (cases "c = backslash")
      case True
      from "3.prems" False True have s: "has_escape (CHR ''T'') s \<longrightarrow> fst (pe_ttyname_r pe) = 0"
        by simp
      show ?thesis
        using False True "3.IH"(2) [OF False True s] by simp
    next
      case nb: False
      from "3.prems" False nb
      have s: "has_escape (CHR ''T'') (x # s) \<longrightarrow> fst (pe_ttyname_r pe) = 0"
        by simp
      show ?thesis
        using False nb "3.IH"(3) [OF False nb s] by simp
    qed
  qed
qed

lemma prompt_loop_plain:
  "CHR ''%'' \<notin> set fmt \<Longrightarrow> backslash \<notin> set fmt \<Longrightarrow> prompt_loop pe h fmt cb = Some (cb @ fmt)"
  by (induction pe h fmt cb rule: prompt_loop.induct) auto

text \<open>
  Claim C7, as the code has it. For every format that does not end in an unpaired \<open>%\<close>
  or backslash, and that has the escape \<open>%T\<close> only if \<open>ttyname_r\<close> succeeds on \<open>stdin\<close>,
  \<open>cli_prompt_get\<close> returns the expansion of the format, or the default prompt \<open>cli> \<close>
  when that expansion is empty. The expansion (\<^const>\<open>expand_format\<close>) replaces \<open>%H\<close> by
  the host name (\<open>unknown\<close> when \<open>gethostname\<close> fails), \<open>%U\<close> by the variable \<open>USER\<close>
  (\<open>nobody\<close> when it is not set), \<open>%T\<close> by the name of the terminal of \<open>stdin\<close>
  (\<^const>\<open>tty_name\<close>), \<open>%w\<close> by the edit path, \<open>%W\<close> by the last segment of the edit path
  with its trailing separator kept (\<^const>\<open>last_segment_sep\<close>), both by \<open>/\<close> when the
  edit path is missing or empty, any other \<open>%X\<close> by the two characters \<open>%X\<close>,
  backslash-\<open>n\<close> by a newline and any other backslash-\<open>X\<close> by the two characters
  themselves.
\<close>

theorem prompt_render:
  assumes "\<not> unpaired_escape fmt"
    and "has_escape (CHR ''T'') fmt \<longrightarrow> fst (pe_ttyname_r pe) = 0"
  shows "cli_prompt_get pe h fmt =
           Some (if expand_format last_segment_sep tty_name pe h fmt = [] then CLI_DEFAULT_PROMPT
                 else expand_format last_segment_sep tty_name pe h fmt)"
  using assms(1) by (simp add: cli_prompt_get_def prompt_loop_expand [OF assms(2)])

lemmas ex_defs = cli_prompt_get_def prompt_percent_def prompt_env_example_def handle_edit_abc_def
  clicon_handle_init_def clicon_data_get_def hash_value_def backslash_def newline_def CLI_DEFAULT_PROMPT_def

theorem prompt_render_witness:
  "\<not> unpaired_escape prompt_format_example
   \<and> has_escape (CHR ''T'') prompt_format_example
   \<and> fst (pe_ttyname_r prompt_env_example) = 0
   \<and> cli_prompt_get prompt_env_example handle_edit_abc prompt_format_example
       = Some (''router:admin@/dev/pts/0 c/ /a/b/c/ %q'' @ [newline, backslash] @ ''t> '')"
proof -
  have u: "\<not> unpaired_escape prompt_format_example"
    by (simp add: prompt_format_example_def backslash_def)
  have t: "has_escape (CHR ''T'') prompt_format_example"
    by (simp add: prompt_format_example_def backslash_def)
  have r: "fst (pe_ttyname_r prompt_env_example) = 0"
    by (simp add: prompt_env_example_def)
  have e: "expand_format last_segment_sep tty_name prompt_env_example handle_edit_abc
             prompt_format_example
           = ''router:admin@/dev/pts/0 c/ /a/b/c/ %q'' @ [newline, backslash] @ ''t> ''"
    by (simp add: prompt_format_example_def expand_percent_def tty_name_def last_segment_sep_def
        last_segment_def is_separator_def prompt_env_example_def handle_edit_abc_def
        clicon_handle_init_def edit_path_def backslash_def newline_def)
  show ?thesis
    using prompt_render [of prompt_format_example prompt_env_example handle_edit_abc] u t r e
    by simp
qed

text \<open>
  The claim as stated fails on four inputs. It has \<open>%W\<close> render \<open>c\<close> for the edit path
  \<open>/a/b/c/\<close> (\<^const>\<open>last_segment\<close>); the code renders \<open>c/\<close>. It has \<open>%T\<close> render
  \<open>notty\<close> when \<open>stdin\<close> is not a terminal (\<^const>\<open>tty_fallback\<close>); \<open>ttyname_r\<close> then
  returns a positive error number, the code tests for a negative one, and renders what
  \<open>tty\<close> holds. It has \<open>%U\<close> render the empty string when \<open>USER\<close> is empty; the code
  returns the default prompt. And it is about every format; for the format \<open>%\<close> the
  code reads past the end of the format.
\<close>

theorem prompt_render_counterexample:
  "cli_prompt_get prompt_env_example handle_edit_abc ''%W'' = Some ''c/''
   \<and> expand_format last_segment tty_fallback prompt_env_example handle_edit_abc ''%W'' = ''c''
   \<and> cli_prompt_get prompt_env_example handle_edit_abc ''%W''
       \<noteq> Some (expand_format last_segment tty_fallback prompt_env_example handle_edit_abc ''%W'')
   \<and> cli_prompt_get prompt_env_notty handle_edit_abc ''%T'' = Some ''xx''
   \<and> expand_format last_segment tty_fallback prompt_env_notty handle_edit_abc ''%T'' = ''notty''
   \<and> cli_prompt_get prompt_env_notty handle_edit_abc ''%T''
       \<noteq> Some (expand_format last_segment tty_fallback prompt_env_notty handle_edit_abc ''%T'')
   \<and> cli_prompt_get prompt_env_notty handle_edit_abc ''%U'' = Some ''cli> ''
   \<and> expand_format last_segment tty_fallback prompt_env_notty handle_edit_abc ''%U'' = []
   \<and> cli_prompt_get prompt_env_notty handle_edit_abc ''%U''
       \<noteq> Some (expand_format last_segment tty_fallback prompt_env_notty handle_edit_abc ''%U'')
   \<and> cli_prompt_get prompt_env_example handle_edit_abc ''%'' = None"
  by (simp add: ex_defs prompt_env_notty_def expand_percent_def tty_fallback_def tty_name_def
      last_segment_def is_separator_def edit_path_def)

text \<open>
  Claim C8, as the code has it. For every non-empty format that contains neither \<open>%\<close> nor
  a backslash, \<open>cli_prompt_get\<close> returns the format itself; for the empty format it
  returns the default prompt \<open>cli> \<close>.
\<close>

theorem prompt_identity:
  "(fmt \<noteq> [] \<and> CHR ''%'' \<notin> set fmt \<and> backslash \<notin> set fmt
      \<longrightarrow> cli_prompt_get pe h fmt = Some fmt)
   \<and> cli_prompt_get pe h [] = Some CLI_DEFAULT_PROMPT"
  by (auto simp: cli_prompt_get_def prompt_loop_plain)

theorem prompt_identity_witness:
  "cli_prompt_get prompt_env_example handle_edit_abc ''clixon cli> '' = Some ''clixon cli> ''"
  using prompt_identity [of "''clixon cli> ''" prompt_env_example handle_edit_abc]
  by (simp add: backslash_def)

text \<open>
  The claim as stated includes the empty template in the identity law; the code renders
  it as \<open>cli> \<close>.
\<close>

theorem prompt_empty_template_counterexample:
  "cli_prompt_get prompt_env_example handle_edit_abc [] = Some ''cli> ''
   \<and> cli_prompt_get prompt_env_example handle_edit_abc [] \<noteq> Some []"
  by (simp add: cli_prompt_get_def CLI_DEFAULT_PROMPT_def)

section \<open>Properties of the configuration-file loader\<close>

lemma tokens_unfold_ne:
  "dropWhile isspace x \<noteq> [] \<Longrightarrow>
   tokens x = takeWhile (\<lambda>c. \<not> isspace c) (dropWhile isspace x)
                # tokens (dropWhile (\<lambda>c. \<not> isspace c) (dropWhile isspace x))"
  apply (subst tokens.simps)
  apply (simp only: Let_def if_False)
  done

lemma tokens_unfold_e:
  "dropWhile isspace x = [] \<Longrightarrow> tokens x = []"
  apply (subst tokens.simps)
  apply (simp only: Let_def if_True refl)
  done

lemma scan_s_None: "dropWhile isspace x = [] \<Longrightarrow> scan_s x = None"
  unfolding scan_s_def Let_def by (simp only: if_True refl)

lemma scan_s_Some: "dropWhile isspace x \<noteq> [] \<Longrightarrow>
  scan_s x = Some (takeWhile (\<lambda>c. \<not> isspace c) (dropWhile isspace x),
                   dropWhile (\<lambda>c. \<not> isspace c) (dropWhile isspace x))"
  unfolding scan_s_def Let_def by (simp only: if_False)

lemma sscanf_tokens: "sscanf_s_s x = take 2 (tokens x)"
proof (cases "dropWhile isspace x = []")
  case True
  show ?thesis
    unfolding sscanf_s_s_def scan_s_None [OF True] tokens_unfold_e [OF True] by simp
next
  case False
  let ?s = "dropWhile isspace x"
  let ?r = "dropWhile (\<lambda>c. \<not> isspace c) ?s"
  show ?thesis
  proof (cases "dropWhile isspace ?r = []")
    case True
    show ?thesis
      unfolding sscanf_s_s_def scan_s_Some [OF False] tokens_unfold_ne [OF False]
        tokens_unfold_e [OF True]
      by (simp add: scan_s_None [OF True])
  next
    case r: False
    show ?thesis
      unfolding sscanf_s_s_def scan_s_Some [OF False] tokens_unfold_ne [OF False]
        tokens_unfold_ne [OF r]
      by (simp add: scan_s_Some [OF r])
  qed
qed


lemma takeWhile_snoc_stop: "\<not> P c \<Longrightarrow> takeWhile P (xs @ [c]) = takeWhile P xs"
  by (induction xs) simp_all

lemma dropWhile_snoc_stop: "\<not> P c \<Longrightarrow> dropWhile P (xs @ [c]) = dropWhile P xs @ [c]"
  by (induction xs) simp_all

lemma takeWhile_all: "x \<notin> set xs \<Longrightarrow> takeWhile (\<lambda>c. c \<noteq> x) xs = xs"
  by (induction xs) auto

lemma dropWhile_all: "x \<notin> set xs \<Longrightarrow> dropWhile (\<lambda>c. c \<noteq> x) xs = []"
  by (induction xs) auto

lemma tokens_snoc_space:
  "isspace c \<Longrightarrow> tokens (y @ [c]) = tokens y"
proof (induction y rule: tokens.induct)
  case (1 s)
  show ?case
  proof (cases "dropWhile isspace s = []")
    case True
    then have "\<forall>x \<in> set s. isspace x"
      by (simp add: dropWhile_eq_Nil_conv)
    with 1(2) have "dropWhile isspace (s @ [c]) = []"
      by (simp add: dropWhile_eq_Nil_conv)
    then have "tokens (s @ [c]) = []"
      by (rule tokens_unfold_e)
    moreover from True have "tokens s = []"
      by (rule tokens_unfold_e)
    ultimately show ?thesis by simp
  next
    case False
    let ?s = "dropWhile isspace s"
    let ?r = "dropWhile (\<lambda>c. \<not> isspace c) ?s"
    from False obtain x where x: "x \<in> set s" "\<not> isspace x"
      by (auto simp: dropWhile_eq_Nil_conv)
    then have d: "dropWhile isspace (s @ [c]) = ?s @ [c]"
      by (simp add: dropWhile_append1)
    then have ne: "dropWhile isspace (s @ [c]) \<noteq> []"
      by simp
    have tw: "takeWhile (\<lambda>c. \<not> isspace c) (?s @ [c]) = takeWhile (\<lambda>c. \<not> isspace c) ?s"
      using 1(2) by (intro takeWhile_snoc_stop) simp
    have dw: "dropWhile (\<lambda>c. \<not> isspace c) (?s @ [c]) = ?r @ [c]"
      using 1(2) by (intro dropWhile_snoc_stop) simp
    have "tokens (s @ [c]) = takeWhile (\<lambda>c. \<not> isspace c) ?s # tokens (?r @ [c])"
      unfolding tokens_unfold_ne [OF ne] d tw dw ..
    also have "tokens (?r @ [c]) = tokens ?r"
      using False 1(2) by (intro 1(1)) (rule refl)
    also have "takeWhile (\<lambda>c. \<not> isspace c) ?s # tokens ?r = tokens s"
      by (rule tokens_unfold_ne [OF False, symmetric])
    finally show ?thesis .
  qed
qed

lemma text_lines_unfold:
  "s \<noteq> [] \<Longrightarrow>
   text_lines s = takeWhile (\<lambda>c. c \<noteq> newline) s
                    # text_lines (drop 1 (dropWhile (\<lambda>c. c \<noteq> newline) s))"
proof (induction s)
  case Nil
  then show ?case by simp
next
  case (Cons c s)
  then show ?case
    by (cases "s = []") auto
qed

lemma fgets_line:
  assumes "s \<noteq> []" and "length (takeWhile (\<lambda>c. c \<noteq> newline) s) \<le> 1022"
  shows "fgets 1024 s = takeWhile (\<lambda>c. c \<noteq> newline) s
                          @ take 1 (dropWhile (\<lambda>c. c \<noteq> newline) s)
       \<and> drop (length (fgets 1024 s)) s = drop 1 (dropWhile (\<lambda>c. c \<noteq> newline) s)"
proof (cases "newline \<in> set s")
  case False
  then have tw: "takeWhile (\<lambda>c. c \<noteq> newline) s = s"
    and dw: "dropWhile (\<lambda>c. c \<noteq> newline) s = []"
    by (simp_all add: takeWhile_all dropWhile_all)
  from assms(2) have "length s \<le> 1022"
    unfolding tw .
  then have "fgets 1024 s = s"
    by (simp add: fgets_def Let_def tw)
  then show ?thesis
    unfolding tw dw by simp
next
  case True
  then obtain f r where s: "s = f @ newline # r" and nf: "newline \<notin> set f"
    by (auto dest: split_list_first)
  have tw: "takeWhile (\<lambda>c. c \<noteq> newline) s = f"
    unfolding s using nf by (simp add: takeWhile_append takeWhile_all)
  have dw: "dropWhile (\<lambda>c. c \<noteq> newline) s = newline # r"
    unfolding s using nf by (simp add: dropWhile_append dropWhile_all)
  from assms(2) have len: "length f \<le> 1022"
    unfolding tw .
  then have "take 1023 s = f @ newline # take (1022 - length f) r"
    unfolding s by (simp add: take_Cons')
  moreover have "takeWhile (\<lambda>c. c \<noteq> newline) (f @ newline # take (1022 - length f) r) = f"
    using nf by (simp add: takeWhile_append takeWhile_all)
  ultimately have "fgets 1024 s = f @ [newline]"
    by (simp add: fgets_def Let_def)
  then show ?thesis
    unfolding tw dw by (simp add: s)
qed

lemma fgets_line_full:
  assumes "length (takeWhile (\<lambda>c. c \<noteq> newline) s) = 1023"
  shows "fgets 1024 s = takeWhile (\<lambda>c. c \<noteq> newline) s
       \<and> drop (length (fgets 1024 s)) s = dropWhile (\<lambda>c. c \<noteq> newline) s"
proof -
  let ?f = "takeWhile (\<lambda>c. c \<noteq> newline) s"
  let ?r = "dropWhile (\<lambda>c. c \<noteq> newline) s"
  have nf: "newline \<notin> set ?f"
    by (auto dest: set_takeWhileD)
  have "take (length ?f) (?f @ ?r) = ?f"
    by (simp del: takeWhile_dropWhile_id)
  then have "take (length ?f) s = ?f"
    by simp
  then have buf: "take 1023 s = ?f"
    unfolding assms .
  have "takeWhile (\<lambda>c. c \<noteq> newline) ?f = ?f"
    using nf by (rule takeWhile_all)
  then have line: "fgets 1024 s = ?f"
    by (simp add: fgets_def Let_def buf)
  have "drop (length ?f) (?f @ ?r) = ?r"
    by (simp del: takeWhile_dropWhile_id)
  then have "drop (length ?f) s = ?r"
    by simp
  with line show ?thesis
    by simp
qed

lemma readfile_line_tokens:
  assumes "newline \<notin> set f" and "NUL \<notin> set f" and "r = [] \<or> r = [newline]"
  shows "readfile_line (f @ r) = take 2 (tokens (takeWhile (\<lambda>c. c \<noteq> CHR ''#'') f))"
proof -
  have "NUL \<notin> set (f @ r)"
    using assms(2,3) by (auto simp: NUL_def newline_def)
  then have l0: "takeWhile (\<lambda>c. c \<noteq> NUL) (f @ r) = f @ r"
    by (rule takeWhile_all)
  have l1: "takeWhile (\<lambda>c. c \<noteq> newline) (f @ r) = f"
    using assms(1,3) by (auto simp: takeWhile_append takeWhile_all)
  show ?thesis
  proof (cases "CHR ''#'' \<in> set f")
    case True
    then have "readfile_line (f @ r) = sscanf_s_s (takeWhile (\<lambda>c. c \<noteq> CHR ''#'') f @ [newline])"
      by (simp add: readfile_line_def l0 l1 Let_def)
    then show ?thesis
      by (simp add: sscanf_tokens tokens_snoc_space isspace_def newline_def)
  next
    case False
    then have tw: "takeWhile (\<lambda>c. c \<noteq> CHR ''#'') f = f"
      by (rule takeWhile_all)
    from False have "readfile_line (f @ r) = take 2 (tokens f)"
      by (simp add: readfile_line_def l0 l1 Let_def sscanf_tokens)
    then show ?thesis
      by (simp only: tw)
  qed
qed

lemma config_line_step:
  "(let toks = take 2 (tokens (takeWhile (\<lambda>c. c \<noteq> CHR ''#'') l))
    in if length toks < 2 then F copt
       else (case hash_add copt (toks ! 0) (toks ! 1) of
               None \<Rightarrow> E
             | Some copt' \<Rightarrow> F copt')) = F (config_line copt l)"
proof (cases "tokens (takeWhile (\<lambda>c. c \<noteq> CHR ''#'') l)")
  case Nil
  then show ?thesis by (simp add: config_line_def)
next
  case (Cons a as)
  then show ?thesis
    by (cases as) (simp_all add: config_line_def hash_add_def)
qed

lemma readfile_loop_unfold:
  assumes "s \<noteq> []"
    and "drop (length (fgets 1024 s)) s = rest"
    and "readfile_line (fgets 1024 s) = take 2 (tokens (takeWhile (\<lambda>c. c \<noteq> CHR ''#'') l))"
  shows "readfile_loop copt s = readfile_loop (config_line copt l) rest"
proof -
  have "readfile_loop copt s =
      (let toks = take 2 (tokens (takeWhile (\<lambda>c. c \<noteq> CHR ''#'') l))
       in if length toks < 2 then readfile_loop copt rest
          else (case hash_add copt (toks ! 0) (toks ! 1) of
                  None \<Rightarrow> Inl (OE_UNIX, ''hash_add'')
                | Some copt' \<Rightarrow> readfile_loop copt' rest))"
    using assms(1) by (subst readfile_loop.simps) (simp only: Let_def assms(2,3) if_False)
  also have "\<dots> = readfile_loop (config_line copt l) rest"
    by (rule config_line_step)
  finally show ?thesis .
qed

lemma readfile_loop_newline: "readfile_loop copt (newline # r) = readfile_loop copt r"
proof -
  have "fgets 1024 (newline # r) = [newline]"
    by (simp add: fgets_def Let_def)
  then have "drop (length (fgets 1024 (newline # r))) (newline # r) = r"
    and "readfile_line (fgets 1024 (newline # r))
           = take 2 (tokens (takeWhile (\<lambda>c. c \<noteq> CHR ''#'') []))"
    by (simp_all add: readfile_line_def sscanf_s_s_def scan_s_def tokens_unfold_e
        NUL_def newline_def)
  then have "readfile_loop copt (newline # r) = readfile_loop (config_line copt []) r"
    by (intro readfile_loop_unfold) simp_all
  moreover have "config_line copt [] = copt"
    by (simp add: config_line_def tokens_unfold_e)
  ultimately show ?thesis by simp
qed

lemma readfile_loop_step:
  assumes ne: "s \<noteq> []"
    and len: "length (takeWhile (\<lambda>c. c \<noteq> newline) s) \<le> 1023"
    and nonul: "NUL \<notin> set s"
  shows "readfile_loop copt s
           = readfile_loop (config_line copt (takeWhile (\<lambda>c. c \<noteq> newline) s))
               (drop 1 (dropWhile (\<lambda>c. c \<noteq> newline) s))"
proof -
  let ?f = "takeWhile (\<lambda>c. c \<noteq> newline) s"
  let ?r = "dropWhile (\<lambda>c. c \<noteq> newline) s"
  have nf: "newline \<notin> set ?f"
    by (auto dest: set_takeWhileD)
  have nn: "NUL \<notin> set ?f"
    using nonul by (auto dest: set_takeWhileD)
  have r1: "take 1 ?r = [] \<or> take 1 ?r = [newline]"
  proof (cases ?r)
    case Nil
    then show ?thesis by simp
  next
    case (Cons x r)
    then have "x = newline"
      using hd_dropWhile [of "\<lambda>c. c \<noteq> newline" s] by simp
    with Cons show ?thesis by simp
  qed
  show ?thesis
  proof (cases "length ?f \<le> 1022")
    case True
    have line: "fgets 1024 s = ?f @ take 1 ?r"
      and drop: "drop (length (fgets 1024 s)) s = drop 1 ?r"
      using fgets_line [OF ne True] by blast+
    have toks: "readfile_line (fgets 1024 s) = take 2 (tokens (takeWhile (\<lambda>c. c \<noteq> CHR ''#'') ?f))"
      unfolding line using nf nn r1 by (rule readfile_line_tokens)
    show ?thesis
      using ne drop toks by (rule readfile_loop_unfold)
  next
    case False
    with len have full: "length ?f = 1023" by simp
    have line: "fgets 1024 s = ?f"
      and drop: "drop (length (fgets 1024 s)) s = ?r"
      using fgets_line_full [OF full] by blast+
    have "readfile_line (?f @ []) = take 2 (tokens (takeWhile (\<lambda>c. c \<noteq> CHR ''#'') ?f))"
      using nf nn by (intro readfile_line_tokens) simp_all
    then have toks: "readfile_line (fgets 1024 s)
                       = take 2 (tokens (takeWhile (\<lambda>c. c \<noteq> CHR ''#'') ?f))"
      unfolding line by simp
    have step: "readfile_loop copt s = readfile_loop (config_line copt ?f) ?r"
      using ne drop toks by (rule readfile_loop_unfold)
    show ?thesis
    proof (cases ?r)
      case Nil
      have "drop 1 ([]::string) = []" by simp
      then show ?thesis
        unfolding step unfolding Nil by (simp only:)
    next
      case (Cons x r)
      then have "x = newline"
        using hd_dropWhile [of "\<lambda>c. c \<noteq> newline" s] by simp
      with Cons have r: "?r = newline # r" by simp
      have "drop 1 (newline # r) = r" by simp
      then show ?thesis
        unfolding step unfolding r by (simp only: readfile_loop_newline)
    qed
  qed
qed

lemma readfile_loop_config_text:
  "NUL \<notin> set s \<Longrightarrow> \<forall>l \<in> set (text_lines s). length l \<le> 1023 \<Longrightarrow>
   readfile_loop copt s = Inr (config_text copt s)"
proof (induction "length s" arbitrary: s copt rule: less_induct)
  case less
  show ?case
  proof (cases "s = []")
    case True
    then show ?thesis
      by (subst readfile_loop.simps) (simp add: config_text_def)
  next
    case False
    let ?f = "takeWhile (\<lambda>c. c \<noteq> newline) s"
    let ?r = "dropWhile (\<lambda>c. c \<noteq> newline) s"
    have tl: "text_lines s = ?f # text_lines (drop 1 ?r)"
      using False by (rule text_lines_unfold)
    with less.prems(2) have len: "length ?f \<le> 1023"
      and rest: "\<forall>l \<in> set (text_lines (drop 1 ?r)). length l \<le> 1023"
      by simp_all
    have nonul: "NUL \<notin> set (drop 1 ?r)"
      using less.prems(1) by (auto dest!: in_set_dropD set_dropWhileD)
    have shorter: "length (drop 1 ?r) < length s"
    proof (cases ?r)
      case Nil
      have "length (drop 1 ([]::string)) = 0" by simp
      moreover have "0 < length s" using False by simp
      ultimately show ?thesis unfolding Nil by (simp only:)
    next
      case (Cons x r)
      have "length (drop 1 (x # r)) < length (x # r)" by simp
      then have "length (drop 1 ?r) < length ?r" unfolding Cons .
      also have "length ?r \<le> length s" by (rule length_dropWhile_le)
      finally show ?thesis .
    qed
    have IH: "readfile_loop copt' (drop 1 ?r) = Inr (config_text copt' (drop 1 ?r))" for copt'
      using shorter nonul rest by (rule less.hyps)
    have "readfile_loop copt s = readfile_loop (config_line copt ?f) (drop 1 ?r)"
      using False len less.prems(1) by (rule readfile_loop_step)
    also have "\<dots> = Inr (config_text (config_line copt ?f) (drop 1 ?r))"
      by (rule IH)
    also have "config_text (config_line copt ?f) (drop 1 ?r) = config_text copt s"
      by (simp add: config_text_def tl)
    finally show ?thesis .
  qed
qed

text \<open>
  Claim C5, as the code has it. \<open>clicon_option_readfile\<close> fails when the file name is
  \<open>NULL\<close> or empty, when \<open>stat\<close> fails, when the path is not a regular file, and when
  the file cannot be opened. For a regular, readable file that has no NUL byte and whose
  lines are each at most 1023 characters long, it returns the registry that results from
  processing the lines in order (\<^const>\<open>config_text\<close>): the part of a line from the first
  \<open>#\<close> on is stripped, a line with fewer than two white-space-separated tokens is
  skipped, and otherwise the first two tokens are inserted as key and value, a later
  insertion for a key overwriting the earlier one.
\<close>

theorem option_readfile:
  "(filename = None \<or> filename = Some [] \<longrightarrow> isl (clicon_option_readfile fs copt filename))
   \<and> (filename = Some fname \<and> fs fname = None
        \<longrightarrow> isl (clicon_option_readfile fs copt filename))
   \<and> (filename = Some fname \<and> fs fname = Some node \<and> \<not> st_isreg node
        \<longrightarrow> isl (clicon_option_readfile fs copt filename))
   \<and> (filename = Some fname \<and> fs fname = Some node \<and> f_content node = None
        \<longrightarrow> isl (clicon_option_readfile fs copt filename))
   \<and> (filename = Some fname \<and> fname \<noteq> [] \<and> fs fname = Some node \<and> st_isreg node
        \<and> f_content node = Some content \<and> NUL \<notin> set content
        \<and> (\<forall>l \<in> set (text_lines content). length l \<le> 1023)
        \<longrightarrow> clicon_option_readfile fs copt filename = Inr (config_text copt content))"
  by (auto simp: clicon_option_readfile_def readfile_loop_config_text)

lemma text_lines_example:
  "text_lines config_example =
     [''# clixon configuration'', ''CLICON_SOCK   /var/run/a.sock  # first'',
      ''CLICON_CLI_MODE'', [], ''CLICON_SOCK /s'']"
  by (simp add: config_example_def newline_def)

lemma config_text_example:
  "config_text Map.empty config_example = [''CLICON_SOCK'' \<mapsto> ''/s'']"
  unfolding config_text_def text_lines_example
  by (simp add: config_line_def tokens.simps isspace_def)

theorem option_readfile_witness:
  "clicon_option_readfile fs_example Map.empty (Some ''/etc/clixon.conf'')
     = Inr [''CLICON_SOCK'' \<mapsto> ''/s'']
   \<and> isl (clicon_option_readfile fs_example Map.empty None)
   \<and> isl (clicon_option_readfile fs_example Map.empty (Some []))
   \<and> isl (clicon_option_readfile fs_example Map.empty (Some ''/etc/none.conf''))
   \<and> isl (clicon_option_readfile fs_example Map.empty (Some ''/etc''))
   \<and> isl (clicon_option_readfile fs_example Map.empty (Some ''/etc/shadow''))"
proof -
  have len: "\<forall>l \<in> set (text_lines config_example). length l \<le> 1023"
    unfolding text_lines_example by simp
  have nonul: "NUL \<notin> set config_example"
    by (simp add: config_example_def NUL_def newline_def)
  have "clicon_option_readfile fs_example Map.empty (Some ''/etc/clixon.conf'')
          = Inr [''CLICON_SOCK'' \<mapsto> ''/s'']"
    using option_readfile [of "Some ''/etc/clixon.conf''" fs_example Map.empty "''/etc/clixon.conf''"
        "\<lparr>st_isreg = True, f_content = Some config_example\<rparr>" config_example] len nonul
    by (simp add: fs_example_def config_text_example)
  moreover have "isl (clicon_option_readfile fs_example Map.empty None)"
    using option_readfile [of None fs_example Map.empty] by simp
  moreover have "isl (clicon_option_readfile fs_example Map.empty (Some []))"
    using option_readfile [of "Some []" fs_example Map.empty] by simp
  moreover have "isl (clicon_option_readfile fs_example Map.empty (Some ''/etc/none.conf''))"
    using option_readfile [of "Some ''/etc/none.conf''" fs_example Map.empty "''/etc/none.conf''"]
    by (simp add: fs_example_def)
  moreover have "isl (clicon_option_readfile fs_example Map.empty (Some ''/etc''))"
    using option_readfile [of "Some ''/etc''" fs_example Map.empty "''/etc''"
        "\<lparr>st_isreg = False, f_content = None\<rparr>"]
    by (simp add: fs_example_def)
  moreover have "isl (clicon_option_readfile fs_example Map.empty (Some ''/etc/shadow''))"
    using option_readfile [of "Some ''/etc/shadow''" fs_example Map.empty "''/etc/shadow''"
        "\<lparr>st_isreg = True, f_content = None\<rparr>"]
    by (simp add: fs_example_def)
  ultimately show ?thesis by blast
qed

lemma fgets_full:
  assumes "length xs = 1023" and "newline \<notin> set xs"
  shows "fgets 1024 (xs @ ys) = xs"
  using assms by (simp add: fgets_def Let_def takeWhile_all)

lemma text_lines_single:
  "newline \<notin> set l \<Longrightarrow> text_lines (l @ [newline]) = [l]"
  by (induction l) auto

lemma tokens_spaces: "tokens (replicate n CHR '' '' @ s) = tokens s"
proof -
  have dw: "dropWhile isspace (replicate n CHR '' '' @ s) = dropWhile isspace s"
    by (induction n) (simp_all add: isspace_def)
  show ?thesis
  proof (cases "dropWhile isspace s = []")
    case True
    have "dropWhile isspace (replicate n CHR '' '' @ s) = []"
      unfolding dw by (rule True)
    then have "tokens (replicate n CHR '' '' @ s) = []"
      by (rule tokens_unfold_e)
    moreover have "tokens s = []"
      using True by (rule tokens_unfold_e)
    ultimately show ?thesis by (simp only:)
  next
    case False
    have "dropWhile isspace (replicate n CHR '' '' @ s) \<noteq> []"
      unfolding dw by (rule False)
    then have "tokens (replicate n CHR '' '' @ s)
        = takeWhile (\<lambda>c. \<not> isspace c) (dropWhile isspace (replicate n CHR '' '' @ s))
            # tokens (dropWhile (\<lambda>c. \<not> isspace c)
                (dropWhile isspace (replicate n CHR '' '' @ s)))"
      by (rule tokens_unfold_ne)
    moreover have "tokens s = takeWhile (\<lambda>c. \<not> isspace c) (dropWhile isspace s)
        # tokens (dropWhile (\<lambda>c. \<not> isspace c) (dropWhile isspace s))"
      using False by (rule tokens_unfold_ne)
    ultimately show ?thesis
      unfolding dw by (simp only:)
  qed
qed

lemma tokens_key_spaces:
  "tokens (CHR ''K'' # replicate (Suc n) CHR '' '' @ s) = ''K'' # tokens s"
proof -
  let ?x = "CHR ''K'' # replicate (Suc n) CHR '' '' @ s"
  have dw: "dropWhile isspace ?x = ?x"
    by (simp add: isspace_def)
  then have ne: "dropWhile isspace ?x \<noteq> []"
    by simp
  have tw: "takeWhile (\<lambda>c. \<not> isspace c) ?x = ''K''"
    by (simp add: isspace_def)
  have rest: "dropWhile (\<lambda>c. \<not> isspace c) ?x = replicate (Suc n) CHR '' '' @ s"
    by (simp add: isspace_def)
  have "tokens ?x = takeWhile (\<lambda>c. \<not> isspace c) (dropWhile isspace ?x)
                      # tokens (dropWhile (\<lambda>c. \<not> isspace c) (dropWhile isspace ?x))"
    using ne by (rule tokens_unfold_ne)
  then have "tokens ?x = ''K'' # tokens (replicate (Suc n) CHR '' '' @ s)"
    unfolding dw tw rest .
  then show ?thesis
    by (simp only: tokens_spaces)
qed

lemma readfile_long_line:
  "readfile_loop Map.empty config_long_line = Inr [''K'' \<mapsto> ''V'']"
proof -
  let ?xs = "CHR ''K'' # replicate (Suc 1020) CHR '' '' @ ''V''"
  let ?ys = "''W'' @ [newline]"
  have cfg: "config_long_line = ?xs @ ?ys"
    by (simp add: config_long_line_def)
  have len: "length ?xs = 1023" by simp
  have nonl: "newline \<notin> set ?xs" by (simp add: newline_def)
  have nonul: "NUL \<notin> set ?xs" by (simp add: NUL_def)
  have nohash: "CHR ''#'' \<notin> set ?xs" by simp
  have ne: "?xs @ ?ys \<noteq> []" by simp
  have line: "fgets 1024 (?xs @ ?ys) = ?xs"
    using len nonl by (rule fgets_full)
  have rest: "drop (length (fgets 1024 (?xs @ ?ys))) (?xs @ ?ys) = ?ys"
    unfolding line by simp
  have "readfile_line (?xs @ []) = take 2 (tokens (takeWhile (\<lambda>c. c \<noteq> CHR ''#'') ?xs))"
    using nonl nonul by (intro readfile_line_tokens) simp_all
  then have toks: "readfile_line (fgets 1024 (?xs @ ?ys))
                     = take 2 (tokens (takeWhile (\<lambda>c. c \<noteq> CHR ''#'') ?xs))"
    unfolding line by simp
  have first: "readfile_loop Map.empty (?xs @ ?ys) = readfile_loop (config_line Map.empty ?xs) ?ys"
    using ne rest toks by (rule readfile_loop_unfold)
  have tw: "takeWhile (\<lambda>c. c \<noteq> CHR ''#'') ?xs = ?xs"
    using nohash by (rule takeWhile_all)
  have tk: "tokens ?xs = [''K'', ''V'']"
    unfolding tokens_key_spaces by (simp add: tokens.simps isspace_def)
  have key: "config_line Map.empty ?xs = [''K'' \<mapsto> ''V'']"
    unfolding config_line_def tw tk by simp
  have second: "readfile_loop [''K'' \<mapsto> ''V''] ?ys = Inr [''K'' \<mapsto> ''V'']"
    by (simp add: readfile_loop.simps fgets_def readfile_line_def sscanf_s_s_def scan_s_def
        isspace_def newline_def NUL_def hash_add_def Let_def)
  show ?thesis
    unfolding cfg first key second ..
qed

lemma config_text_long_line:
  "config_text Map.empty config_long_line = [''K'' \<mapsto> ''VW'']"
proof -
  let ?l = "CHR ''K'' # replicate (Suc 1020) CHR '' '' @ ''VW''"
  have cfg: "config_long_line = ?l @ [newline]"
    by (simp add: config_long_line_def)
  have "newline \<notin> set ?l"
    by (simp add: newline_def)
  then have lines: "text_lines config_long_line = [?l]"
    unfolding cfg by (rule text_lines_single)
  have "CHR ''#'' \<notin> set ?l"
    by simp
  then have tw: "takeWhile (\<lambda>c. c \<noteq> CHR ''#'') ?l = ?l"
    by (rule takeWhile_all)
  have tk: "tokens ?l = [''K'', ''VW'']"
    unfolding tokens_key_spaces by (simp add: tokens.simps isspace_def)
  have "config_line Map.empty ?l = [''K'' \<mapsto> ''VW'']"
    unfolding config_line_def tw tk by simp
  then show ?thesis
    unfolding config_text_def lines by simp
qed

lemma readfile_nul: "readfile_loop Map.empty config_nul = Inr Map.empty"
  by (simp add: config_nul_def readfile_loop.simps fgets_def readfile_line_def sscanf_s_s_def
      scan_s_def isspace_def newline_def NUL_def Let_def)

lemma config_text_nul:
  "config_text Map.empty config_nul = [''K'' @ [NUL] @ ''X'' \<mapsto> ''V'']"
proof -
  have "text_lines config_nul = [''K'' @ [NUL] @ ''X V'']"
    by (simp add: config_nul_def newline_def NUL_def)
  then show ?thesis
    by (simp add: config_text_def config_line_def tokens.simps isspace_def NUL_def)
qed

text \<open>
  The claim as stated is about every input file, and fails on two kinds of file. The
  loader reads through a buffer of 1024 bytes: of a line of 1024 characters, the key \<open>K\<close>,
  1021 spaces and the value \<open>VW\<close>, it reads the first 1023 characters as a line and
  inserts the value \<open>V\<close>, and then reads \<open>W\<close> as a line of its own. And the loader
  reads each line as a C string: of the line \<open>K\<close>, NUL, \<open>X V\<close>, which has two tokens,
  it sees the one token \<open>K\<close> and inserts nothing.
\<close>

theorem option_readfile_counterexample:
  "clicon_option_readfile fs_example Map.empty (Some ''/etc/long.conf'')
     = Inr [''K'' \<mapsto> ''V'']
   \<and> config_text Map.empty config_long_line = [''K'' \<mapsto> ''VW'']
   \<and> clicon_option_readfile fs_example Map.empty (Some ''/etc/long.conf'')
       \<noteq> Inr (config_text Map.empty config_long_line)
   \<and> clicon_option_readfile fs_example Map.empty (Some ''/etc/nul.conf'') = Inr Map.empty
   \<and> config_text Map.empty config_nul = [''K'' @ [NUL] @ ''X'' \<mapsto> ''V'']
   \<and> clicon_option_readfile fs_example Map.empty (Some ''/etc/nul.conf'')
       \<noteq> Inr (config_text Map.empty config_nul)"
proof -
  have "Map.empty \<noteq> [''K'' @ [NUL] @ ''X'' \<mapsto> ''V'']"
    by (metis map_upd_nonempty)
  moreover have "[''K'' \<mapsto> ''V''] \<noteq> [''K'' \<mapsto> ''VW'']"
    by (auto dest: map_upd_eqD1)
  ultimately show ?thesis
    by (simp add: clicon_option_readfile_def fs_example_def readfile_long_line
        config_text_long_line readfile_nul config_text_nul)
qed

text \<open>
  With a configuration file that sets \<open>CLICON_SOCK\<close> only, \<open>clicon_options_main\<close> fails
  and the message names \<open>CLICON_CLI_DIR\<close>, the first required option that is missing.
\<close>

lemma options_main_sock_only:
  "clicon_options_main fs_example ''clicon'' ''master''
     (clicon_handle_init\<lparr>clicon_options := [''CLICON_CONFIGFILE'' \<mapsto> ''/etc/sock.conf'']\<rparr>)
     = Inl (OE_UNIX, ''CLICON_CLI_DIR not defined in config file'')"
proof -
  have "readfile_loop copt config_sock_only = Inr (copt(''CLICON_SOCK'' \<mapsto> ''/s''))" for copt
    by (simp add: config_sock_only_def readfile_loop.simps fgets_def readfile_line_def
        sscanf_s_s_def scan_s_def isspace_def newline_def NUL_def hash_add_def Let_def)
  then show ?thesis
    by (simp add: clicon_options_main_def clicon_handle_init_def hash_lookup_def hash_value_def
        clicon_option_readfile_def fs_example_def clicon_option_default_def default_add_def
        hash_add_def clicon_option_sanity_def Let_def)
qed

section \<open>Properties of the parse and evaluate step\<close>

text \<open>
  Claim C9. For every command string and every mode name that no parse-tree head
  carries, \<open>clicon_parse\<close> returns 0, writes nothing through \<open>result\<close> and \<open>evalres\<close>, and
  leaves the handle (the active mode, the output, the error variables and all else) as
  it was.
\<close>

theorem parse_unknown_mode:
  assumes "modename = Some name" and "cligen_ph_find (ch_pt_head (cli_cligen h)) name = None"
  shows "clicon_parse pe h cmd modename
           = \<lparr>pr_retval = 0, pr_handle = h, pr_result = None, pr_evalres = None\<rparr>"
  using assms by (simp add: clicon_parse_def)

theorem parse_unknown_mode_witness:
  "cligen_ph_find (ch_pt_head (cli_cligen handle_base)) ''config'' = None
   \<and> clicon_parse parse_env_example handle_base ''show'' (Some ''config'')
       = \<lparr>pr_retval = 0, pr_handle = handle_base, pr_result = None, pr_evalres = None\<rparr>"
proof -
  have nf: "cligen_ph_find (ch_pt_head (cli_cligen handle_base)) ''config'' = None"
    by (simp add: handle_base_def clicon_handle_init_def)
  show ?thesis
    using parse_unknown_mode [OF refl nf, of parse_env_example "''show''"] nf by simp
qed

lemma handler_err_stderr: "h_stderr (cli_handler_err pe Stdout h) = h_stderr h"
  by (simp add: cli_handler_err_def fprintf_def Let_def)

lemma handler_err_suberrno: "clicon_suberrno (cli_handler_err pe f h) = clicon_suberrno h"
  by (cases f) (simp_all add: cli_handler_err_def fprintf_def Let_def)

lemma handler_err_stdout:
  "h_stdout (cli_handler_err pe Stdout h) =
     h_stdout h @
       (if clicon_errno h = 0 then []
        else if CLICON_LOG_STDERR \<in> clicon_logflags h then ''CLI command error'' @ [newline]
        else clicon_strerror pe (clicon_errno h) @ '': '' @ clicon_err_reason h
               @ (if clicon_suberrno h \<noteq> 0 then '': '' @ strerror pe (clicon_suberrno h) else [])
               @ [newline])"
  by (simp add: cli_handler_err_def fprintf_def Let_def)

text \<open>
  Claim C6, as the code has it. Let a command match in a registered mode while the CLI is
  not exiting, and let its handler return a negative value, leaving the handle \<open>h2\<close>.
  \<open>clicon_parse\<close> then reports the error with \<open>cli_handler_err\<close> on \<open>stdout\<close>, not on
  \<open>stderr\<close>: nothing when \<open>clicon_errno\<close> is 0, the line \<open>CLI command error\<close> when errors
  are logged on \<open>stderr\<close>, and otherwise the category, the reason and the text of the
  sub-error. When the sub-error is \<open>ESHUTDOWN\<close> it returns -1 and the read-eval
  loop ends, leaving the rest of the input unread; for any other error it returns 0 with
  the handler's value in \<open>evalres\<close>, and the loop goes on with the next line.
\<close>

theorem parse_handler_error:
  assumes ph: "cligen_ph_find (ch_pt_head (cli_cligen h)) name = Some ph"
    and match: "cliread_parse pe (ph_parsetree ph) cmd = Some (CG_MATCH, callbacks, reason)"
    and run: "\<not> cligen_exiting h"
    and eval: "cligen_eval pe callbacks
                 (clicon_err_reset (h\<lparr>cli_cligen := (cli_cligen h)\<lparr>ch_pt_head_active := Some name\<rparr>\<rparr>))
               = (ret, h2)"
    and err: "ret < 0"
  shows "pr_handle (clicon_parse pe h cmd (Some name)) = cli_handler_err pe Stdout h2
     \<and> h_stderr (pr_handle (clicon_parse pe h cmd (Some name))) = h_stderr h2
     \<and> h_stdout (pr_handle (clicon_parse pe h cmd (Some name))) =
         h_stdout h2 @
           (if clicon_errno h2 = 0 then []
            else if CLICON_LOG_STDERR \<in> clicon_logflags h2 then ''CLI command error'' @ [newline]
            else clicon_strerror pe (clicon_errno h2) @ '': '' @ clicon_err_reason h2
                   @ (if clicon_suberrno h2 \<noteq> 0 then '': '' @ strerror pe (clicon_suberrno h2) else [])
                   @ [newline])
     \<and> (clicon_suberrno h2 = ESHUTDOWN \<longrightarrow>
          pr_retval (clicon_parse pe h cmd (Some name)) = - 1
          \<and> (cli_syntax_mode h = Some name \<longrightarrow>
               cli_interactive pe (cmd # input) h = (cli_handler_err pe Stdout h2, input)))
     \<and> (clicon_suberrno h2 \<noteq> ESHUTDOWN \<longrightarrow>
          pr_retval (clicon_parse pe h cmd (Some name)) = 0
          \<and> pr_evalres (clicon_parse pe h cmd (Some name)) = Some ret
          \<and> (cli_syntax_mode h = Some name \<longrightarrow>
               cli_interactive pe (cmd # input) h
                 = cli_interactive pe input (cli_handler_err pe Stdout h2)))"
proof -
  let ?r = "clicon_parse pe h cmd (Some name)"
  have ex: "\<not> cligen_exiting (h\<lparr>cli_cligen := (cli_cligen h)\<lparr>ch_pt_head_active := Some name\<rparr>\<rparr>)"
    using run by (simp add: cligen_exiting_def)
  have r: "?r = (if clicon_suberrno h2 = ESHUTDOWN
                 then \<lparr>pr_retval = - 1, pr_handle = cli_handler_err pe Stdout h2,
                       pr_result = Some CG_MATCH, pr_evalres = None\<rparr>
                 else \<lparr>pr_retval = 0, pr_handle = cli_handler_err pe Stdout h2,
                       pr_result = Some CG_MATCH, pr_evalres = Some ret\<rparr>)"
    using ph match ex eval err
    by (simp add: clicon_parse_def Let_def handler_err_suberrno)
  have hd: "pr_handle ?r = cli_handler_err pe Stdout h2"
    by (simp add: r)
  have loop: "cli_interactive pe (cmd # input) h =
      (if pr_retval ?r < 0 then (pr_handle ?r, input) else cli_interactive pe input (pr_handle ?r))"
    if "cli_syntax_mode h = Some name"
    using that run by (simp add: Let_def)
  show ?thesis
    using loop by (simp add: hd handler_err_stderr handler_err_stdout) (simp add: r)
qed

lemmas parse_example_defs = clicon_parse_def parse_env_example_def handle_base_def
  clicon_handle_init_def cligen_exiting_def clicon_err_reset_def cli_handler_err_def
  fprintf_def ESHUTDOWN_def Let_def newline_def cli_syntax_mode_def cli_set_exiting_def

text \<open>
  The claim as stated has the error rendered to \<open>stderr\<close>. With logging on syslog, the
  failing handler of the example leaves \<open>stderr\<close> empty and the message on \<open>stdout\<close>.
\<close>

theorem parse_handler_error_stdout_counterexample:
  "pr_retval (clicon_parse parse_env_example handle_base ''fail'' (Some ''base'')) = 0
   \<and> h_stderr (pr_handle (clicon_parse parse_env_example handle_base ''fail'' (Some ''base''))) = []
   \<and> h_stdout (pr_handle (clicon_parse parse_env_example handle_base ''fail'' (Some ''base'')))
       = ''Config error: commit'' @ [newline]"
  by (simp add: parse_example_defs)

theorem parse_handler_error_witness:
  "snd (cli_interactive parse_env_example [''shutdown'', ''show''] handle_base) = [''show'']
   \<and> h_stdout (fst (cli_interactive parse_env_example [''shutdown'', ''show''] handle_base))
       = ''Config error: send: Cannot send after transport endpoint shutdown'' @ [newline]
   \<and> snd (cli_interactive parse_env_example [''fail'', ''show''] handle_base) = []
   \<and> h_stdout (fst (cli_interactive parse_env_example [''fail'', ''show''] handle_base))
       = ''Config error: commit'' @ [newline] @ ''ok'' @ [newline]
   \<and> h_stderr (fst (cli_interactive parse_env_example [''fail'', ''show''] handle_base)) = []"
proof -
  let ?h0 = "clicon_err_reset (handle_base\<lparr>cli_cligen :=
               (cli_cligen handle_base)\<lparr>ch_pt_head_active := Some ''base''\<rparr>\<rparr>)"
  let ?ph = "\<lparr>ph_name = ''base'', ph_parsetree = [], ph_prompt = ''cli> ''\<rparr>"
  have ph: "cligen_ph_find (ch_pt_head (cli_cligen handle_base)) ''base'' = Some ?ph"
    by (simp add: handle_base_def clicon_handle_init_def)
  have run: "\<not> cligen_exiting handle_base"
    by (simp add: handle_base_def clicon_handle_init_def cligen_exiting_def)
  have mode: "cli_syntax_mode handle_base = Some ''base''"
    by (simp add: handle_base_def clicon_handle_init_def cli_syntax_mode_def)
  have m1: "cliread_parse parse_env_example (ph_parsetree ?ph) ''shutdown''
              = Some (CG_MATCH, [''cli_shutdown''], [])"
    by (simp add: parse_env_example_def)
  have e1: "cligen_eval parse_env_example [''cli_shutdown''] ?h0
              = (- 1, ?h0\<lparr>clicon_errno := 5, clicon_suberrno := ESHUTDOWN,
                           clicon_err_reason := ''send''\<rparr>)"
    by (simp add: parse_env_example_def)
  have m2: "cliread_parse parse_env_example (ph_parsetree ?ph) ''fail''
              = Some (CG_MATCH, [''cli_fail''], [])"
    by (simp add: parse_env_example_def)
  have e2: "cligen_eval parse_env_example [''cli_fail''] ?h0
              = (- 1, ?h0\<lparr>clicon_errno := 5, clicon_suberrno := 0, clicon_err_reason := ''commit''\<rparr>)"
    by (simp add: parse_env_example_def)
  have neg: "(- 1 :: int) < 0" by simp
  have "snd (cli_interactive parse_env_example [''shutdown'', ''show''] handle_base) = [''show'']
      \<and> h_stdout (fst (cli_interactive parse_env_example [''shutdown'', ''show''] handle_base))
          = ''Config error: send: Cannot send after transport endpoint shutdown'' @ [newline]"
    using parse_handler_error [OF ph m1 run e1 neg, of "[''show'']"] mode
    by (simp add: parse_example_defs)
  moreover have "snd (cli_interactive parse_env_example [''fail'', ''show''] handle_base) = []
      \<and> h_stdout (fst (cli_interactive parse_env_example [''fail'', ''show''] handle_base))
          = ''Config error: commit'' @ [newline] @ ''ok'' @ [newline]
      \<and> h_stderr (fst (cli_interactive parse_env_example [''fail'', ''show''] handle_base)) = []"
    using parse_handler_error [OF ph m2 run e2 neg, of "[''show'']"] mode
    by (simp add: parse_example_defs)
  ultimately show ?thesis by blast
qed

section \<open>Properties of the grammar loader\<close>





























end
